theory Spec2Isabelle
  imports Complex_Main "HOL-Library.AList"
begin

unbundle bit_operations_syntax

section \<open>Conventions of the embedding\<close>

text \<open>
  The sources are the Python files \<^verbatim>\<open>aircraft_simulator.py\<close>, \<^verbatim>\<open>send_adsb.py\<close>,
  \<^verbatim>\<open>atc_army_offline.py\<close> and \<^verbatim>\<open>atc_debian9.py\<close>.
  \<^item> Python \<^verbatim>\<open>int\<close> is \<^typ>\<open>int\<close>; \<^verbatim>\<open>str\<close> is \<^typ>\<open>string\<close> (a list of 8-bit
    characters); \<^verbatim>\<open>bytes\<close> is a list of integers from 0 to 255.
  \<^item> Python \<^verbatim>\<open>float\<close> is idealised as \<^typ>\<open>real\<close>: rounding of IEEE doubles is not
    modelled, and neither are infinities and NaN.
  \<^item> \<^verbatim>\<open>None\<close> is \<^term>\<open>None\<close>; a raised exception is the result \<^term>\<open>None\<close> of a
    function returning an option, and a \<^verbatim>\<open>try/except\<close> is the case distinction on it.
  \<^item> A \<^verbatim>\<open>dict\<close> keeps insertion order, so it is an association list; HOL-Library's
    \<^const>\<open>AList.update\<close> replaces in place or appends, as a dict does.
  \<^item> Every reading of the clock (\<^verbatim>\<open>time.time()\<close>) and every random draw is a parameter.
  \<^item> Names of the second receiver (\<^verbatim>\<open>atc_debian9.py\<close>) carry the suffix \<open>9\<close>, names of
    the second encoder (\<^verbatim>\<open>send_adsb.py\<close>) the suffix \<open>_gen\<close>.
\<close>

section \<open>Python primitives\<close>

text \<open>\<^verbatim>\<open>int(x)\<close> on a float truncates toward zero.\<close>

definition py_trunc :: "real \<Rightarrow> int" where
  "py_trunc x = (if 0 \<le> x then \<lfloor>x\<rfloor> else \<lceil>x\<rceil>)"

text \<open>\<^verbatim>\<open>x % m\<close> on floats, for a positive \<open>m\<close>: the result has the sign of \<open>m\<close>.\<close>

definition py_fmod :: "real \<Rightarrow> real \<Rightarrow> real" where
  "py_fmod x m = x - m * of_int \<lfloor>x / m\<rfloor>"

text \<open>\<^verbatim>\<open>math.atan2(y, x)\<close>, without signed zeros.\<close>

definition py_atan2 :: "real \<Rightarrow> real \<Rightarrow> real" where
  "py_atan2 y x =
     (if 0 < x then arctan (y / x)
      else if x < 0 then (if 0 \<le> y then arctan (y / x) + pi else arctan (y / x) - pi)
      else if 0 < y then pi / 2
      else if y < 0 then - (pi / 2)
      else 0)"

definition degrees :: "real \<Rightarrow> real" where
  "degrees r = r * 180 / pi"

definition radians :: "real \<Rightarrow> real" where
  "radians d = d * pi / 180"

subsection \<open>Digit strings\<close>

text \<open>
  Whitespace as \<^verbatim>\<open>str.strip()\<close> and \<^verbatim>\<open>int()\<close> see it on ASCII text: the characters
  9 to 13, 28 to 31 and the blank.
\<close>

definition is_space :: "char \<Rightarrow> bool" where
  "is_space c = (let n = (of_char c :: nat) in (9 \<le> n \<and> n \<le> 13) \<or> (28 \<le> n \<and> n \<le> 32))"

definition py_strip :: "string \<Rightarrow> string" where
  "py_strip s = rev (dropWhile is_space (rev (dropWhile is_space s)))"

text \<open>The value of a digit of \<^verbatim>\<open>int(s, base)\<close>: \<^verbatim>\<open>0-9\<close>, then letters of either case.\<close>

definition digit_val :: "char \<Rightarrow> nat option" where
  "digit_val c =
     (let n = (of_char c :: nat) in
      if 48 \<le> n \<and> n \<le> 57 then Some (n - 48)
      else if 65 \<le> n \<and> n \<le> 90 then Some (n - 55)
      else if 97 \<le> n \<and> n \<le> 122 then Some (n - 87)
      else None)"

text \<open>
  The digits of \<^verbatim>\<open>int(s, base)\<close>: at least one digit, single underscores between digits
  only. \<open>prev\<close> records that the previous character was a digit.
\<close>

fun py_digits :: "nat \<Rightarrow> int \<Rightarrow> bool \<Rightarrow> string \<Rightarrow> int option" where
  "py_digits b acc prev [] = (if prev then Some acc else None)"
| "py_digits b acc prev (c # cs) =
     (if c = CHR ''_'' then (if prev then py_digits b acc False cs else None)
      else (case digit_val c of
              None \<Rightarrow> None
            | Some d \<Rightarrow> if d < b then py_digits b (acc * int b + int d) True cs else None))"

text \<open>
  The base prefix that \<^verbatim>\<open>int(s, base)\<close> skips after the sign (\<^verbatim>\<open>0x\<close> for base 16,
  \<^verbatim>\<open>0o\<close> for base 8, \<^verbatim>\<open>0b\<close> for base 2, either case), and the one underscore allowed
  after it.
\<close>

definition skip_prefix :: "nat \<Rightarrow> string \<Rightarrow> string" where
  "skip_prefix b u =
     (case u of
        c0 # c1 # r \<Rightarrow>
          if c0 = CHR ''0'' \<and>
             ((b = 16 \<and> (c1 = CHR ''x'' \<or> c1 = CHR ''X''))
              \<or> (b = 8 \<and> (c1 = CHR ''o'' \<or> c1 = CHR ''O''))
              \<or> (b = 2 \<and> (c1 = CHR ''b'' \<or> c1 = CHR ''B'')))
          then (case r of u0 # r' \<Rightarrow> if u0 = CHR ''_'' then r' else r | [] \<Rightarrow> r)
          else u
      | _ \<Rightarrow> u)"

text \<open>
  \<^verbatim>\<open>int(s, base)\<close> for a base from 2 to 36 on ASCII text; \<^term>\<open>None\<close> is \<^verbatim>\<open>ValueError\<close>.
  Surrounding whitespace is stripped, then comes an optional sign, the optional prefix
  and the digits.
\<close>

definition py_int :: "nat \<Rightarrow> string \<Rightarrow> int option" where
  "py_int b s =
     (let t = py_strip s in
      case t of
        [] \<Rightarrow> None
      | c # r \<Rightarrow>
          if c = CHR ''-'' then map_option uminus (py_digits b 0 False (skip_prefix b r))
          else if c = CHR ''+'' then py_digits b 0 False (skip_prefix b r)
          else py_digits b 0 False (skip_prefix b t))"

text \<open>The digit characters \<^verbatim>\<open>format\<close> writes, upper case for \<^verbatim>\<open>'X'\<close>.\<close>

definition digit_char :: "int \<Rightarrow> char" where
  "digit_char d = (if d < 10 then char_of (48 + d) else char_of (55 + d))"

text \<open>The digits of a number \<open>n \<ge> 0\<close> in base \<open>b\<close>, without leading zeros.\<close>

function int_digits :: "int \<Rightarrow> int \<Rightarrow> string" where
  "int_digits b n =
     (if b < 2 \<or> n < b then [digit_char n]
      else int_digits b (n div b) @ [digit_char (n mod b)])"
  by pat_completeness auto
termination
proof (relation "measure (\<lambda>(b, n). nat n)")
  show "wf (measure (\<lambda>(b, n). nat n))"
    by simp
next
  fix b n :: int
  assume "\<not> (b < 2 \<or> n < b)"
  then have b: "2 \<le> b" and n: "b \<le> n"
    by simp_all
  have "n div b < n"
    using b n by (intro int_div_less_self) simp_all
  moreover have "0 < n"
    using b n by simp
  ultimately show "((b, n div b), (b, n)) \<in> measure (\<lambda>(b, n). nat n)"
    by simp
qed

declare int_digits.simps [simp del]

text \<open>
  \<^verbatim>\<open>format(n, '0<w>b')\<close> and \<^verbatim>\<open>format(n, '0<w>X')\<close>: the digits of \<open>|n|\<close>, padded with
  zeros after the sign to the width \<open>w\<close>, and longer when the number needs it.
\<close>

definition py_format :: "int \<Rightarrow> nat \<Rightarrow> int \<Rightarrow> string" where
  "py_format b w n =
     (if 0 \<le> n then
        (let ds = int_digits b n in replicate (w - length ds) CHR ''0'' @ ds)
      else
        (let ds = int_digits b (- n) in
           CHR ''-'' # replicate (w - 1 - length ds) CHR ''0'' @ ds))"

text \<open>\<^verbatim>\<open>bin(n)\<close> and \<^verbatim>\<open>str.zfill(w)\<close>, which pads after a leading sign.\<close>

definition py_bin :: "int \<Rightarrow> string" where
  "py_bin n = (if 0 \<le> n then ''0b'' @ int_digits 2 n
               else ''-0b'' @ int_digits 2 (- n))"

definition py_zfill :: "nat \<Rightarrow> string \<Rightarrow> string" where
  "py_zfill w s =
     (case s of
        [] \<Rightarrow> replicate w CHR ''0''
      | c # r \<Rightarrow>
          if c = CHR ''+'' \<or> c = CHR ''-''
          then c # replicate (w - length s) CHR ''0'' @ r
          else replicate (w - length s) CHR ''0'' @ s)"

text \<open>A slice \<^verbatim>\<open>s[i:j]\<close> with \<open>0 \<le> i\<close> and \<open>0 \<le> j\<close>; it never raises.\<close>

definition slice :: "nat \<Rightarrow> nat \<Rightarrow> 'a list \<Rightarrow> 'a list" where
  "slice i j s = take (j - i) (drop i s)"

text \<open>\<^verbatim>\<open>s[i]\<close> with \<open>0 \<le> i\<close>; \<^term>\<open>None\<close> is \<^verbatim>\<open>IndexError\<close>.\<close>

definition char_at :: "'a list \<Rightarrow> nat \<Rightarrow> 'a option" where
  "char_at s i = (if i < length s then Some (s ! i) else None)"

text \<open>\<^verbatim>\<open>str.upper()\<close> on ASCII text.\<close>

definition upper_char :: "char \<Rightarrow> char" where
  "upper_char c = (let n = (of_char c :: nat) in if 97 \<le> n \<and> n \<le> 122 then char_of (n - 32) else c)"

definition py_upper :: "string \<Rightarrow> string" where
  "py_upper s = map upper_char s"

text \<open>\<^verbatim>\<open>str.find(c)\<close> for a single character: the first index, or \<open>-1\<close>.\<close>

fun py_find :: "string \<Rightarrow> char \<Rightarrow> int" where
  "py_find [] c = -1"
| "py_find (x # xs) c = (if x = c then 0 else (let r = py_find xs c in if r < 0 then -1 else r + 1))"

section \<open>Mode-S CRC\<close>

text \<open>
  \<^verbatim>\<open>ADSBEncoder.crc\<close> of \<^verbatim>\<open>aircraft_simulator.py\<close>. The loop body tests the bit
  \<open>len - 1 - i\<close> of \<open>msg_int\<close> and xors the shifted generator into it.
\<close>

definition GENERATOR :: int where
  "GENERATOR = 0xFFFA0480900"

definition crc_step :: "nat \<Rightarrow> int \<Rightarrow> nat \<Rightarrow> int" where
  "crc_step len msg_int i =
     (if drop_bit (len - 1 - i) msg_int AND 1 \<noteq> 0
      then msg_int XOR push_bit (len - 25 - i) (drop_bit 1 GENERATOR)
      else msg_int)"

definition crc :: "string \<Rightarrow> bool \<Rightarrow> int option" where
  "crc msg_hex encode =
     (case py_int 16 msg_hex of
        None \<Rightarrow> None
      | Some v \<Rightarrow>
          (let msg_bin0 = py_zfill (length msg_hex * 4) (drop 2 (py_bin v));
               msg_bin = (if encode then msg_bin0 @ replicate 24 CHR ''0'' else msg_bin0)
           in case py_int 2 msg_bin of
                None \<Rightarrow> None
              | Some msg_int \<Rightarrow>
                  Some (foldl (crc_step (length msg_bin)) msg_int [0 ..< length msg_bin - 24]
                        AND 0xFFFFFF)))"

text \<open>\<^verbatim>\<open>ADSBEncoder.crc\<close> of \<^verbatim>\<open>send_adsb.py\<close>: the generator is shifted right by \<open>i\<close>.\<close>

definition generator_gen :: int where
  "generator_gen = 0xFFFA0480"

definition crc_step_gen :: "nat \<Rightarrow> int \<Rightarrow> nat \<Rightarrow> int" where
  "crc_step_gen len msg_int i =
     (if drop_bit (len - i - 1) msg_int AND 1 \<noteq> 0
      then msg_int XOR drop_bit i generator_gen
      else msg_int)"

definition crc_gen :: "string \<Rightarrow> bool \<Rightarrow> int option" where
  "crc_gen msg encode =
     (case py_int 16 msg of
        None \<Rightarrow> None
      | Some v \<Rightarrow>
          (let msg_bin0 = py_zfill (length msg * 4) (drop 2 (py_bin v));
               msg_bin = (if encode then msg_bin0 @ replicate 24 CHR ''0'' else msg_bin0)
           in case py_int 2 msg_bin of
                None \<Rightarrow> None
              | Some msg_int \<Rightarrow>
                  Some (foldl (crc_step_gen (length msg_bin)) msg_int [0 ..< length msg_bin - 24]
                        AND 0xFFFFFF)))"

section \<open>Encoders of \<^verbatim>\<open>aircraft_simulator.py\<close>\<close>

definition charset :: string where
  "charset = ''#ABCDEFGHIJKLMNOPQRSTUVWXYZ##### ###############0123456789######''"

text \<open>
  The last three lines of each encoder of \<^verbatim>\<open>aircraft_simulator.py\<close>:
  \<^verbatim>\<open>msg_hex = format(int(msg_bin, 2), '0<w>X')\<close>,
  \<^verbatim>\<open>crc = ADSBEncoder.crc(msg_hex, encode=True)\<close> and
  \<^verbatim>\<open>return msg_hex + format(crc, '06X')\<close>.
\<close>

definition seal :: "nat \<Rightarrow> string \<Rightarrow> string option" where
  "seal w msg_bin =
     (case py_int 2 msg_bin of
        None \<Rightarrow> None
      | Some v \<Rightarrow>
          (let msg_hex = py_format 16 w v
           in case crc msg_hex True of
                None \<Rightarrow> None
              | Some c \<Rightarrow> Some (msg_hex @ py_format 16 6 c)))"

text \<open>
  \<^verbatim>\<open>ADSBEncoder.encode_callsign\<close>. \<^term>\<open>None\<close> stands for the \<^verbatim>\<open>ValueError\<close> of an
  \<^verbatim>\<open>int()\<close> call. Callsigns are ASCII text.
\<close>

definition encode_callsign :: "string \<Rightarrow> string \<Rightarrow> string option" where
  "encode_callsign icao callsign =
     (let df = 17; ca = 5; tc = 4;
          callsign8 = py_upper (slice 0 8 (callsign @ ''        ''));
          encoded_chars = map (\<lambda>char. let idx = py_find charset char
                                         in if idx \<ge> 0 then idx else 0) callsign8
      in case py_int 16 icao of
           None \<Rightarrow> None
         | Some icao_int \<Rightarrow>
             (let msg_bin = py_format 2 5 df @ py_format 2 3 ca @ py_format 2 24 icao_int
                    @ py_format 2 5 tc @ py_format 2 3 0
                    @ concat (map (py_format 2 6) encoded_chars)
              in seal 16 msg_bin))"

text \<open>\<^verbatim>\<open>ADSBEncoder.nl\<close>; the argument is in radians.\<close>

definition nl :: "real \<Rightarrow> int" where
  "nl lat =
     (if lat = 0 then 59
      else if \<bar>lat\<bar> \<ge> pi / 2 then 1
      else (let nz = 15;
                a = 1 - cos (pi / (2 * nz));
                b = (cos lat)\<^sup>2
            in if 1 - a / b \<le> 0 then 1
               else \<lfloor>2 * pi / arccos (1 - a / b)\<rfloor>))"

text \<open>
  \<^verbatim>\<open>ADSBEncoder.encode_position\<close>. The altitude is an integer number of feet, as both
  callers pass it. \<^term>\<open>None\<close> stands for a \<^verbatim>\<open>ValueError\<close> or the failed assertion on
  the length of \<^verbatim>\<open>msg_bin\<close>.
\<close>

definition encode_position :: "string \<Rightarrow> real \<Rightarrow> real \<Rightarrow> int \<Rightarrow> int \<Rightarrow> string option" where
  "encode_position icao lat lon alt time_bit =
     (let df = 17; ca = 5; tc = 11;
          alt_code = py_trunc (of_int (alt + 1000) / 25);
          alt_bin = py_format 2 11 alt_code;
          alt_encoded = slice 0 8 alt_bin @ ''1'' @ slice 8 11 alt_bin;
          nb = 17;
          nz = (if time_bit = 0 then 60 else 59);
          dlat = 360 / nz;
          yz = lat / dlat;
          lat_cpr = py_trunc ((yz - of_int (py_trunc yz)) * 2 ^ nb) AND (2 ^ nb - 1);
          lat_rad = lat * pi / 180;
          nl = nl lat_rad;
          n = max (if time_bit = 0 then nl else nl - 1) 1;
          dlon = 360 / of_int n;
          xz = lon / dlon;
          lon_cpr = py_trunc ((xz - of_int (py_trunc xz)) * 2 ^ nb) AND (2 ^ nb - 1)
      in case py_int 16 icao of
           None \<Rightarrow> None
         | Some icao_int \<Rightarrow>
             (let msg_bin = py_format 2 5 df @ py_format 2 3 ca @ py_format 2 24 icao_int
                    @ py_format 2 5 tc @ py_format 2 2 0 @ py_format 2 1 0
                    @ alt_encoded @ py_format 2 1 0 @ py_format 2 1 time_bit
                    @ py_format 2 17 lat_cpr @ py_format 2 17 lon_cpr
              in if length msg_bin \<noteq> 88 then None
                 else seal 22 msg_bin))"

text \<open>\<^verbatim>\<open>ADSBEncoder.encode_velocity\<close>.\<close>

definition encode_velocity :: "string \<Rightarrow> real \<Rightarrow> real \<Rightarrow> real \<Rightarrow> string option" where
  "encode_velocity icao speed heading vr =
     (let df = 17; ca = 5; tc = 19; st = 1;
          heading_rad = radians heading;
          v_ew = speed * sin heading_rad;
          v_ns = speed * cos heading_rad;
          v_ew_sign = (if v_ew \<ge> 0 then 0 else 1);
          v_ns_sign = (if v_ns \<ge> 0 then 0 else 1);
          v_ew_encoded = min (py_trunc \<bar>v_ew\<bar> + 1) 1023;
          v_ns_encoded = min (py_trunc \<bar>v_ns\<bar> + 1) 1023;
          vr_sign = (if vr \<ge> 0 then 0 else 1);
          vr_encoded = (if vr \<noteq> 0 then min (py_trunc (\<bar>vr\<bar> / 64) + 1) 511 else 0)
      in case py_int 16 icao of
           None \<Rightarrow> None
         | Some icao_int \<Rightarrow>
             (let msg_bin0 = py_format 2 5 df @ py_format 2 3 ca @ py_format 2 24 icao_int
                    @ py_format 2 5 tc @ py_format 2 3 st
                    @ py_format 2 1 0 @ py_format 2 1 0 @ py_format 2 3 0
                    @ py_format 2 1 v_ew_sign @ py_format 2 10 v_ew_encoded
                    @ py_format 2 1 v_ns_sign @ py_format 2 10 v_ns_encoded
                    @ py_format 2 1 0 @ py_format 2 1 vr_sign @ py_format 2 9 vr_encoded
                    @ py_format 2 2 0 @ py_format 2 1 0;
                  msg_bin = msg_bin0 @ replicate (88 - length msg_bin0) CHR ''0''
              in if length msg_bin \<noteq> 88 then None
                 else seal 22 msg_bin))"

section \<open>Encoders of \<^verbatim>\<open>send_adsb.py\<close>\<close>

text \<open>The same three lines in \<^verbatim>\<open>send_adsb.py\<close>, with its own \<^verbatim>\<open>crc\<close>.\<close>

definition seal_gen :: "nat \<Rightarrow> string \<Rightarrow> string option" where
  "seal_gen w msg_bin =
     (case py_int 2 msg_bin of
        None \<Rightarrow> None
      | Some v \<Rightarrow>
          (let msg_hex = py_format 16 w v
           in case crc_gen msg_hex True of
                None \<Rightarrow> None
              | Some c \<Rightarrow> Some (msg_hex @ py_format 16 6 c)))"

text \<open>\<^verbatim>\<open>ADSBEncoder.nl\<close>; the bound is the literal \<^verbatim>\<open>1.5707963\<close> of the source.\<close>

definition nl_gen :: "real \<Rightarrow> int" where
  "nl_gen lat_rad =
     (if \<bar>lat_rad\<bar> \<ge> 15707963 / 10000000 then 1
      else (let nz = 15;
                a = 1 - cos (pi / (2 * nz));
                b = (cos lat_rad)\<^sup>2
            in if 1 - a / b \<le> 0 then 1
               else py_trunc (2 * pi / arccos (1 - a / b))))"

text \<open>
  \<^verbatim>\<open>ADSBEncoder.encode_callsign\<close>: each character is upper-cased on its own and looked up
  with \<^verbatim>\<open>in\<close> and \<^verbatim>\<open>index\<close>.
\<close>

definition encode_callsign_gen :: "string \<Rightarrow> string \<Rightarrow> string option" where
  "encode_callsign_gen icao callsign =
     (let df = 17; ca = 5; tc = 4;
          callsign8 = slice 0 8 (callsign @ ''        '');
          encoded_chars = map (\<lambda>char. let char = upper_char char
                                         in if char \<in> set charset then py_find charset char
                                            else 0) callsign8
      in case py_int 16 icao of
           None \<Rightarrow> None
         | Some icao_int \<Rightarrow>
             (let msg_bin = py_format 2 5 df @ py_format 2 3 ca @ py_format 2 24 icao_int
                    @ py_format 2 5 tc @ py_format 2 3 0
                    @ concat (map (py_format 2 6) encoded_chars)
              in seal_gen 16 msg_bin))"

text \<open>
  \<^verbatim>\<open>ADSBEncoder.encode_position\<close>: the altitude field is built from the seven top bits,
  the Q bit and the four bottom bits; the length of \<^verbatim>\<open>msg_bin\<close> is not asserted.
\<close>

definition encode_position_gen :: "string \<Rightarrow> real \<Rightarrow> real \<Rightarrow> int \<Rightarrow> int \<Rightarrow> string option" where
  "encode_position_gen icao lat lon alt time_bit =
     (let df = 17; ca = 5; tc = 11;
          alt_code = py_trunc (of_int (alt + 1000) / 25);
          top_bits = drop_bit 4 alt_code AND 0x7F;
          bottom_bits = alt_code AND 0x0F;
          alt_encoded_int = push_bit 5 top_bits OR push_bit 4 1 OR bottom_bits;
          alt_encoded = py_format 2 12 alt_encoded_int;
          nb = 17;
          nz = (if time_bit = 0 then 60 else 59);
          dlat = 360 / nz;
          yz = lat / dlat;
          lat_cpr = py_trunc ((yz - of_int (py_trunc yz)) * 2 ^ nb) AND (2 ^ nb - 1);
          lat_rad = lat * pi / 180;
          nl = nl_gen lat_rad;
          n = max (if time_bit = 0 then nl else nl - 1) 1;
          dlon = 360 / of_int n;
          xz = lon / dlon;
          lon_cpr = py_trunc ((xz - of_int (py_trunc xz)) * 2 ^ nb) AND (2 ^ nb - 1)
      in case py_int 16 icao of
           None \<Rightarrow> None
         | Some icao_int \<Rightarrow>
             (let msg_bin = py_format 2 5 df @ py_format 2 3 ca @ py_format 2 24 icao_int
                    @ py_format 2 5 tc @ py_format 2 2 0 @ py_format 2 1 0
                    @ alt_encoded @ py_format 2 1 0 @ py_format 2 1 time_bit
                    @ py_format 2 17 lat_cpr @ py_format 2 17 lon_cpr
              in seal_gen 22 msg_bin))"

text \<open>
  \<^verbatim>\<open>ADSBEncoder.encode_velocity\<close>: the magnitudes are not clamped, and the assertion on the
  length of \<^verbatim>\<open>msg_bin\<close> fails when one of them does not fit its field.
\<close>

definition encode_velocity_gen :: "string \<Rightarrow> real \<Rightarrow> real \<Rightarrow> real \<Rightarrow> string option" where
  "encode_velocity_gen icao speed heading vr =
     (let df = 17; ca = 5; tc = 19; st = 1;
          heading_rad = heading * pi / 180;
          v_ew = speed * sin heading_rad;
          v_ns = speed * cos heading_rad;
          ew_sign = (if v_ew < 0 then 1 else 0);
          ns_sign = (if v_ns < 0 then 1 else 0);
          ew_vel = py_trunc \<bar>v_ew\<bar> + 1;
          ns_vel = py_trunc \<bar>v_ns\<bar> + 1;
          vr_sign = (if vr < 0 then 1 else 0);
          vr_val = py_trunc (\<bar>vr\<bar> / 64) + 1
      in case py_int 16 icao of
           None \<Rightarrow> None
         | Some icao_int \<Rightarrow>
             (let msg_bin = py_format 2 5 df @ py_format 2 3 ca @ py_format 2 24 icao_int
                    @ py_format 2 5 tc @ py_format 2 3 st
                    @ py_format 2 1 0 @ py_format 2 1 0 @ py_format 2 3 0
                    @ py_format 2 1 ew_sign @ py_format 2 10 ew_vel
                    @ py_format 2 1 ns_sign @ py_format 2 10 ns_vel
                    @ py_format 2 1 0 @ py_format 2 1 vr_sign @ py_format 2 9 vr_val
                    @ py_format 2 2 0 @ py_format 2 1 0 @ py_format 2 7 0
              in if length msg_bin \<noteq> 88 then None
                 else seal_gen 22 msg_bin))"

section \<open>Beast encoder of \<^verbatim>\<open>aircraft_simulator.py\<close>\<close>

text \<open>Bytes are integers from 0 to 255; \<^verbatim>\<open>BeastEncoder.ESC\<close>.\<close>

definition ESC :: int where
  "ESC = 0x1A"

text \<open>
  \<^verbatim>\<open>bytes.fromhex\<close>: pairs of hexadecimal digits, ASCII whitespace skipped between pairs;
  \<^term>\<open>None\<close> is \<^verbatim>\<open>ValueError\<close>.
\<close>

definition is_ascii_space :: "char \<Rightarrow> bool" where
  "is_ascii_space c = (let n = (of_char c :: nat) in (9 \<le> n \<and> n \<le> 13) \<or> n = 32)"

fun fromhex :: "string \<Rightarrow> int list option" where
  "fromhex [] = Some []"
| "fromhex [c] = (if is_ascii_space c then Some [] else None)"
| "fromhex (c # d # s) =
     (if is_ascii_space c then fromhex (d # s)
      else (case (digit_val c, digit_val d) of
              (Some h, Some l) \<Rightarrow>
                if h < 16 \<and> l < 16 then map_option ((#) (int (h * 16 + l))) (fromhex s) else None
            | _ \<Rightarrow> None))"

text \<open>\<^verbatim>\<open>int.to_bytes(6, byteorder='big')\<close> of a number below \<open>2 ^ 48\<close>.\<close>

definition to_bytes6 :: "int \<Rightarrow> int list" where
  "to_bytes6 x = map (\<lambda>i. drop_bit (8 * i) x AND 0xFF) [5, 4, 3, 2, 1, 0]"

text \<open>The loop that appends each byte, preceded by \<^verbatim>\<open>ESC\<close> when it is \<^verbatim>\<open>ESC\<close>.\<close>

definition escape :: "int list \<Rightarrow> int list" where
  "escape bs = concat (map (\<lambda>byte. if byte = ESC then [ESC, byte] else [byte]) bs)"

text \<open>
  \<^verbatim>\<open>BeastEncoder.encode_message\<close>. The reading of the clock in microseconds and the
  random signal level are parameters; \<^term>\<open>None\<close> is \<^verbatim>\<open>ValueError\<close>.
\<close>

definition encode_message :: "string \<Rightarrow> int \<Rightarrow> int \<Rightarrow> int list option" where
  "encode_message msg_hex timestamp_us signal_level =
     (case fromhex msg_hex of
        None \<Rightarrow> None
      | Some msg_bytes \<Rightarrow>
          if length msg_bytes \<noteq> 7 \<and> length msg_bytes \<noteq> 14 then None
          else (let msg_type = (if length msg_bytes = 7 then 0x32 else 0x33);
                    timestamp_12mhz = (timestamp_us * 12) AND 0xFFFFFFFFFFFF;
                    timestamp_bytes = to_bytes6 timestamp_12mhz
                in Some ([ESC, msg_type] @ escape timestamp_bytes
                         @ (if signal_level = ESC then [ESC] else []) @ [signal_level]
                         @ escape msg_bytes)))"

section \<open>Simulated aircraft\<close>

text \<open>
  \<^verbatim>\<open>class Aircraft\<close> of \<^verbatim>\<open>aircraft_simulator.py\<close>, with the attribute \<^verbatim>\<open>ac_type\<close> that
  \<^verbatim>\<open>IntegratedSimulator.generate_aircraft\<close> adds (read with
  \<^verbatim>\<open>getattr(ac, 'ac_type', 'civilian')\<close>, hence optional).
\<close>

record aircraft =
  ac_icao :: string
  ac_callsign :: string
  ac_center_lat :: real
  ac_center_lon :: real
  ac_radius_nm :: real
  ac_altitude :: int
  ac_speed_knots :: real
  ac_clockwise :: bool
  ac_angle :: real
  ac_angular_velocity :: real
  ac_last_position_time :: real
  ac_last_velocity_time :: real
  ac_last_callsign_time :: real
  ac_position_frame_even :: bool
  ac_ac_type :: "string option"

definition get_position :: "aircraft \<Rightarrow> real \<times> real" where
  "get_position ac =
     (let radius_deg = ac_radius_nm ac / 60;
          lat = ac_center_lat ac + radius_deg * sin (ac_angle ac);
          lon = ac_center_lon ac
                + radius_deg * cos (ac_angle ac) / cos (radians (ac_center_lat ac))
      in (lat, lon))"

definition get_heading :: "aircraft \<Rightarrow> real" where
  "get_heading ac =
     (let v_lat = (if ac_clockwise ac then cos (ac_angle ac) else - cos (ac_angle ac));
          v_lon = (if ac_clockwise ac then - sin (ac_angle ac) else sin (ac_angle ac))
      in py_fmod (degrees (py_atan2 v_lon v_lat)) 360)"

text \<open>\<^verbatim>\<open>class Aircraft\<close> of \<^verbatim>\<open>atc_debian9.py\<close>.\<close>

record aircraft9 =
  ac9_icao :: string
  ac9_callsign :: string
  ac9_center_lat :: real
  ac9_center_lon :: real
  ac9_altitude :: int
  ac9_speed_knots :: real
  ac9_ac_type :: string
  ac9_angle :: real
  ac9_radius :: real
  ac9_angular_velocity :: real

definition get_position9 :: "aircraft9 \<Rightarrow> real \<times> real" where
  "get_position9 ac =
     (ac9_center_lat ac + ac9_radius ac * sin (ac9_angle ac),
      ac9_center_lon ac + ac9_radius ac * cos (ac9_angle ac))"

definition get_heading9 :: "aircraft9 \<Rightarrow> real" where
  "get_heading9 ac = py_fmod (degrees (ac9_angle ac) + 90) 360"

section \<open>Tracker state\<close>

text \<open>
  The dict stored per received aircraft by \<^verbatim>\<open>ADSBReceiver._process_message\<close> of
  \<^verbatim>\<open>atc_army_offline.py\<close>. A CPR fragment is the tuple
  \<^verbatim>\<open>(cpr_lat, cpr_lon, time.time())\<close>.
\<close>

record rx_aircraft =
  rx_icao :: string
  rx_callsign :: string
  rx_lat :: "real option"
  rx_lon :: "real option"
  rx_altitude :: int
  rx_speed :: real
  rx_heading :: real
  rx_last_seen :: real
  rx_position_even :: "(int \<times> int \<times> real) option"
  rx_position_odd :: "(int \<times> int \<times> real) option"
  rx_type :: string

text \<open>The module globals of \<^verbatim>\<open>atc_army_offline.py\<close>.\<close>

record tracker =
  aircraft_list :: "aircraft list"
  received_aircraft :: "(string \<times> rx_aircraft) list"
  message_count :: int

definition AIRCRAFT_TIMEOUT :: real where
  "AIRCRAFT_TIMEOUT = 60"

text \<open>The dict per received aircraft and the globals of \<^verbatim>\<open>atc_debian9.py\<close>.\<close>

record rx_aircraft9 =
  rx9_icao :: string
  rx9_callsign :: "string option"
  rx9_lat :: "real option"
  rx9_lon :: "real option"
  rx9_altitude :: "int option"
  rx9_speed :: "real option"
  rx9_heading :: "real option"
  rx9_type :: string
  rx9_last_seen :: real
  rx9_lat_even_cpr :: "int option"
  rx9_lon_even_cpr :: "int option"
  rx9_lat_odd_cpr :: "int option"
  rx9_lon_odd_cpr :: "int option"

record tracker9 =
  aircraft_list9 :: "aircraft9 list"
  received_aircraft9 :: "(string \<times> rx_aircraft9) list"
  message_count9 :: int

definition AIRCRAFT_TIMEOUT9 :: real where
  "AIRCRAFT_TIMEOUT9 = 30"

section \<open>Decoders shared by both receivers\<close>

text \<open>
  \<^verbatim>\<open>ADSBReceiver._decode_callsign\<close>, the same text in \<^verbatim>\<open>atc_army_offline.py\<close> and
  \<^verbatim>\<open>atc_debian9.py\<close>. The accumulator of the loop is \<^term>\<open>None\<close> once an \<^verbatim>\<open>int()\<close>
  has raised; the \<^verbatim>\<open>except\<close> clause then returns \<^verbatim>\<open>None\<close>.
\<close>

definition decode_callsign :: "string \<Rightarrow> string option" where
  "decode_callsign msg_hex =
     map_option (\<lambda>callsign. filter (\<lambda>c. c \<noteq> CHR ''#'') (py_strip callsign))
       (fold (\<lambda>i acc.
                case acc of
                  None \<Rightarrow> None
                | Some callsign \<Rightarrow>
                    (let idx = i * 6 + 40;
                         byte_idx = idx div 4;
                         bit_offset = idx mod 4
                     in if byte_idx + 2 < length msg_hex then
                          (case py_int 16 (slice byte_idx (byte_idx + 2) msg_hex) of
                             None \<Rightarrow> None
                           | Some bits \<Rightarrow>
                               Some (callsign @
                                 [charset ! nat (drop_bit (2 - bit_offset) bits AND 0x3F)]))
                        else Some callsign))
          [0 ..< 8] (Some []))"

text \<open>\<^verbatim>\<open>int(s[i])\<close>: one character read as a decimal number.\<close>

definition int_at :: "string \<Rightarrow> nat \<Rightarrow> int option" where
  "int_at s i = (case char_at s i of None \<Rightarrow> None | Some c \<Rightarrow> py_int 10 [c])"

text \<open>
  \<^verbatim>\<open>ADSBReceiver._decode_velocity\<close>, the same text in both receivers. The result is the
  pair \<^verbatim>\<open>(speed, heading)\<close>; any exception gives \<^verbatim>\<open>(None, None)\<close>.
\<close>

definition decode_velocity :: "string \<Rightarrow> real option \<times> real option" where
  "decode_velocity msg_hex =
     (let me_hex = slice 8 22 msg_hex
      in case py_int 16 me_hex of
           None \<Rightarrow> (None, None)
         | Some me_int \<Rightarrow>
             (let me_bin = py_format 2 56 me_int
              in case py_int 2 (slice 0 5 me_bin) of
                   None \<Rightarrow> (None, None)
                 | Some tc \<Rightarrow>
                     if tc \<noteq> 19 then (None, None)
                     else (case (int_at me_bin 13, py_int 2 (slice 14 24 me_bin),
                                 int_at me_bin 24, py_int 2 (slice 25 35 me_bin)) of
                             (Some ew_sign, Some ew_vel_raw, Some ns_sign, Some ns_vel_raw) \<Rightarrow>
                               (let ew_vel0 = ew_vel_raw - 1;
                                    ew_vel = (if ew_sign \<noteq> 0 then - ew_vel0 else ew_vel0);
                                    ns_vel0 = ns_vel_raw - 1;
                                    ns_vel = (if ns_sign \<noteq> 0 then - ns_vel0 else ns_vel0);
                                    speed = sqrt (of_int (ew_vel\<^sup>2 + ns_vel\<^sup>2));
                                    heading = py_fmod (degrees (py_atan2 (of_int ew_vel)
                                                                  (of_int ns_vel))) 360
                                in (Some speed, Some heading))
                           | _ \<Rightarrow> (None, None))))"

text \<open>\<^verbatim>\<open>ADSBReceiver._calculate_nl\<close>, the same text in both receivers; degrees.\<close>

definition calculate_nl :: "real \<Rightarrow> int" where
  "calculate_nl lat =
     (if \<bar>lat\<bar> \<ge> 87 then 1
      else (let nz = 15;
                a = 1 - cos (pi / (2 * nz));
                b = (cos (pi * \<bar>lat\<bar> / 180))\<^sup>2
            in if 1 - a / b \<le> 0 then 1
               else py_trunc (2 * pi / arccos (1 - a / b))))"

text \<open>
  The two loops \<^verbatim>\<open>while lon >= 180: lon -= 360\<close> and
  \<^verbatim>\<open>while lon < -180: lon += 360\<close>.
\<close>

function wrap_down :: "real \<Rightarrow> real" where
  "wrap_down lon = (if lon \<ge> 180 then wrap_down (lon - 360) else lon)"
  by pat_completeness auto
termination
proof (relation "measure (\<lambda>lon. nat \<lceil>lon\<rceil>)")
  show "wf (measure (\<lambda>lon. nat \<lceil>lon\<rceil>))"
    by simp
next
  fix lon :: real
  assume "180 \<le> lon"
  then have "180 \<le> \<lceil>lon\<rceil>"
    by (simp add: le_ceiling_iff)
  moreover have "\<lceil>lon - 360\<rceil> = \<lceil>lon\<rceil> - 360"
    using ceiling_diff_of_int[of lon 360] by simp
  ultimately show "(lon - 360, lon) \<in> measure (\<lambda>lon. nat \<lceil>lon\<rceil>)"
    by simp
qed

declare wrap_down.simps [simp del]

function wrap_up :: "real \<Rightarrow> real" where
  "wrap_up lon = (if lon < - 180 then wrap_up (lon + 360) else lon)"
  by pat_completeness auto
termination
proof (relation "measure (\<lambda>lon. nat \<lceil>- lon\<rceil>)")
  show "wf (measure (\<lambda>lon. nat \<lceil>- lon\<rceil>))"
    by simp
next
  fix lon :: real
  assume "lon < - 180"
  then have "180 < - lon" by simp
  then have "180 < \<lceil>- lon\<rceil>"
    by (simp add: less_ceiling_iff)
  moreover have "\<lceil>- (lon + 360)\<rceil> = \<lceil>- lon\<rceil> - 360"
    using ceiling_diff_of_int[of "- lon" 360] by simp
  ultimately show "(lon + 360, lon) \<in> measure (\<lambda>lon. nat \<lceil>- lon\<rceil>)"
    by simp
qed

declare wrap_up.simps [simp del]

section \<open>Receiver of \<^verbatim>\<open>atc_army_offline.py\<close>\<close>

text \<open>
  The global CPR decode of \<^verbatim>\<open>_decode_position\<close>, from the two stored fragments to the
  pair \<^verbatim>\<open>(lat, lon)\<close> that passes the sanity check, if any.
\<close>

definition cpr_global :: "int \<times> int \<times> real \<Rightarrow> int \<times> int \<times> real \<Rightarrow> (real \<times> real) option" where
  "cpr_global position_even position_odd =
     (case (position_even, position_odd) of
        ((lat_even_cpr, lon_even_cpr, time_even), (lat_odd_cpr, lon_odd_cpr, time_odd)) \<Rightarrow>
          (let NZ = 15;
               dlat_even = 360 / (4 * NZ);
               dlat_odd = 360 / (4 * NZ - 1);
               j = py_trunc ((of_int (59 * lat_even_cpr - 60 * lat_odd_cpr) / 131072) + 1 / 2);
               lat_even0 = dlat_even * (of_int (j mod 60) + of_int lat_even_cpr / 131072);
               lat_odd0 = dlat_odd * (of_int (j mod 59) + of_int lat_odd_cpr / 131072);
               lat_even = (if lat_even0 \<ge> 270 then lat_even0 - 360 else lat_even0);
               lat_odd = (if lat_odd0 \<ge> 270 then lat_odd0 - 360 else lat_odd0);
               use_even = (time_even > time_odd);
               lat = (if use_even then lat_even else lat_odd);
               nl = calculate_nl lat;
               ni = (if use_even then max nl 1 else max (nl - 1) 1);
               dlon = 360 / of_int ni;
               m_raw = (of_int (lon_even_cpr * (nl - 1) - lon_odd_cpr * nl) / 131072 :: real);
               m = \<lfloor>m_raw + 1 / 2\<rfloor>;
               lon_raw = dlon * (of_int m
                          + of_int (if use_even then lon_even_cpr else lon_odd_cpr) / 131072);
               lon1 = wrap_up (wrap_down lon_raw);
               lon2 = (if lon1 \<ge> 180 then lon1 - 360 else lon1);
               lon = (if lon2 < - 180 then lon2 + 360 else lon2)
           in if - 90 \<le> lat \<and> lat \<le> 90 \<and> - 180 \<le> lon \<and> lon \<le> 180
              then Some (lat, lon) else None))"

text \<open>
  \<^verbatim>\<open>ADSBReceiver._decode_position\<close>. \<open>t\<close> is the clock read for the timestamp of the
  fragment. The result is the aircraft dict after the fragment has been stored, and the
  triple \<^verbatim>\<open>(lat, lon, altitude)\<close>; an exception gives \<^verbatim>\<open>(None, None, 0)\<close> and happens
  before the dict is touched (only \<^verbatim>\<open>int()\<close> can raise).
\<close>

definition decode_position ::
  "string \<Rightarrow> rx_aircraft \<Rightarrow> real \<Rightarrow> rx_aircraft \<times> real option \<times> real option \<times> int" where
  "decode_position msg_hex ac t =
     (let me_hex = slice 8 22 msg_hex
      in case py_int 16 me_hex of
           None \<Rightarrow> (ac, None, None, 0)
         | Some me_int \<Rightarrow>
             (let me_bin = py_format 2 56 me_int;
                  alt_bin = slice 8 20 me_bin
              in case (py_int 2 alt_bin, py_int 2 (slice 22 39 me_bin),
                       py_int 2 (slice 39 56 me_bin), int_at me_bin 21) of
                   (Some alt_int, Some cpr_lat, Some cpr_lon, Some time_bit) \<Rightarrow>
                     (let q_bit = drop_bit 4 alt_int AND 1;
                          altitude =
                            (if q_bit = 1 then
                               (let top_bits = drop_bit 5 alt_int AND 0x7F;
                                    bottom_bits = alt_int AND 0x0F;
                                    alt_code = push_bit 4 top_bits OR bottom_bits
                                in alt_code * 25 - 1000)
                             else 0);
                          ac1 = (if time_bit \<noteq> 0
                                 then ac\<lparr>rx_position_odd := Some (cpr_lat, cpr_lon, t)\<rparr>
                                 else ac\<lparr>rx_position_even := Some (cpr_lat, cpr_lon, t)\<rparr>)
                      in case (rx_position_even ac1, rx_position_odd ac1) of
                           (Some position_even, Some position_odd) \<Rightarrow>
                             if \<bar>snd (snd position_even) - snd (snd position_odd)\<bar> > 10
                             then (ac1, None, None, altitude)
                             else (case cpr_global position_even position_odd of
                                     Some (lat, lon) \<Rightarrow> (ac1, Some lat, Some lon, altitude)
                                   | None \<Rightarrow> (ac1, None, None, altitude))
                         | _ \<Rightarrow> (ac1, None, None, altitude))
                 | _ \<Rightarrow> (ac, None, None, 0)))"

text \<open>The dict that \<^verbatim>\<open>_process_message\<close> inserts at the first sight of an ICAO address.\<close>

definition new_aircraft :: "string \<Rightarrow> real \<Rightarrow> rx_aircraft" where
  "new_aircraft icao current_time =
     \<lparr>rx_icao = icao, rx_callsign = [], rx_lat = None, rx_lon = None, rx_altitude = 0,
      rx_speed = 0, rx_heading = 0, rx_last_seen = current_time,
      rx_position_even = None, rx_position_odd = None, rx_type = ''civilian''\<rparr>"

text \<open>
  \<^verbatim>\<open>ADSBReceiver._process_message\<close>. \<open>current_time\<close> is the clock read by this function,
  \<open>t\<close> the clock read inside \<^verbatim>\<open>_decode_position\<close>. The function returns early, or an
  \<^verbatim>\<open>int()\<close> raises into the outer \<^verbatim>\<open>except: pass\<close>, before the dict is touched; the
  \<^verbatim>\<open>print\<close> calls are left out (the one of the velocity branch can raise on \<^verbatim>\<open>None\<close>,
  after every update has been made).
\<close>

definition process_message :: "tracker \<Rightarrow> string \<Rightarrow> real \<Rightarrow> real \<Rightarrow> tracker" where
  "process_message st msg_hex current_time t =
     (if length msg_hex \<noteq> 28 then st
      else (let icao = slice 2 8 msg_hex
            in case py_int 16 (slice 0 2 msg_hex) of
                 None \<Rightarrow> st
               | Some first_byte \<Rightarrow>
                   (let df = drop_bit 3 first_byte
                    in if df \<noteq> 17 then st
                       else (case py_int 16 (slice 8 10 msg_hex) of
                               None \<Rightarrow> st
                             | Some me_byte \<Rightarrow>
                                 (let tc = drop_bit 3 me_byte;
                                      ac0 = (case map_of (received_aircraft st) icao of
                                               None \<Rightarrow> new_aircraft icao current_time
                                             | Some a \<Rightarrow> a);
                                      ac1 = ac0\<lparr>rx_last_seen := current_time\<rparr>;
                                      ac2 =
                                        (if 1 \<le> tc \<and> tc \<le> 4 then
                                           (case decode_callsign msg_hex of
                                              None \<Rightarrow> ac1
                                            | Some callsign \<Rightarrow>
                                                if callsign \<noteq> []
                                                then ac1\<lparr>rx_callsign := callsign\<rparr> else ac1)
                                         else if 9 \<le> tc \<and> tc \<le> 18 then
                                           (case decode_position msg_hex ac1 t of
                                              (ac', Some lat, Some lon, alt) \<Rightarrow>
                                                ac'\<lparr>rx_lat := Some lat, rx_lon := Some lon,
                                                    rx_altitude := alt\<rparr>
                                            | (ac', _, _, _) \<Rightarrow> ac')
                                         else if tc = 19 then
                                           (case decode_velocity msg_hex of
                                              (speed, heading) \<Rightarrow>
                                                (let a = (case speed of
                                                            None \<Rightarrow> ac1
                                                          | Some v \<Rightarrow> ac1\<lparr>rx_speed := v\<rparr>)
                                                 in case heading of
                                                      None \<Rightarrow> a
                                                    | Some h \<Rightarrow> a\<lparr>rx_heading := h\<rparr>))
                                         else ac1)
                                  in st\<lparr>received_aircraft :=
                                          AList.update icao ac2 (received_aircraft st)\<rparr>)))))"

subsection \<open>Input stream\<close>

text \<open>\<^verbatim>\<open>bytes.find(x, start)\<close> for a single byte: the first index from \<open>start\<close>, or \<open>-1\<close>.\<close>

definition bytes_find :: "int list \<Rightarrow> int \<Rightarrow> nat \<Rightarrow> int" where
  "bytes_find buffer x start =
     (if x \<in> set (drop start buffer)
      then int (start + length (takeWhile (\<lambda>y. y \<noteq> x) (drop start buffer)))
      else - 1)"

text \<open>\<^verbatim>\<open>bytes.decode('ascii', errors='ignore')\<close>: the bytes below 128.\<close>

definition decode_ascii :: "int list \<Rightarrow> string" where
  "decode_ascii bs = map char_of (filter (\<lambda>b. b < 128) bs)"

text \<open>\<^verbatim>\<open>bytes.hex()\<close>: two lower-case digits per byte.\<close>

definition hex_char :: "int \<Rightarrow> char" where
  "hex_char d = (if d < 10 then char_of (48 + d) else char_of (87 + d))"

definition bytes_hex :: "int list \<Rightarrow> string" where
  "bytes_hex bs = concat (map (\<lambda>b. [hex_char (b div 16), hex_char (b mod 16)]) bs)"

text \<open>
  The first inner loop of \<^verbatim>\<open>ADSBReceiver._handle_client\<close>: the messages between
  \<^verbatim>\<open>*\<close> and \<^verbatim>\<open>;\<close>. The result is the list of the strings given to
  \<^verbatim>\<open>_process_message\<close>, in order, and the buffer that is left.
\<close>

function avr_loop :: "string list \<Rightarrow> int list \<Rightarrow> string list \<times> int list" where
  "avr_loop msgs buffer =
     (if 0x2A \<in> set buffer \<and> 0x3B \<in> set buffer then
        (let start = bytes_find buffer 0x2A 0;
             end = bytes_find buffer 0x3B (nat start)
         in if end > start then
              (let msg = py_strip (decode_ascii (slice (nat start + 1) (nat end) buffer))
               in avr_loop (if msg \<noteq> [] then msgs @ [msg] else msgs)
                    (drop (nat end + 1) buffer))
            else (msgs, buffer))
      else (msgs, buffer))"
  by pat_completeness auto
termination
proof (relation "measure (\<lambda>(msgs, buffer). length buffer)")
  show "wf (measure (\<lambda>(msgs, buffer). length buffer))" by simp
next
  fix msgs :: "string list" and buffer :: "int list" and x xa xb
  assume "0x2A \<in> set buffer \<and> 0x3B \<in> set buffer"
  hence "buffer \<noteq> []" by auto
  thus "((if xb \<noteq> [] then msgs @ [xb] else msgs, drop (nat xa + 1) buffer), msgs, buffer)
          \<in> measure (\<lambda>(msgs, buffer). length buffer)"
    by simp
qed

declare avr_loop.simps [simp del]

text \<open>
  The second inner loop: a frame of type \<^verbatim>\<open>0x33\<close> is the 23 bytes from an \<^verbatim>\<open>ESC\<close>,
  and its message is \<^verbatim>\<open>buffer[9:23]\<close>.
\<close>

function beast_loop :: "string list \<Rightarrow> int list \<Rightarrow> string list \<times> int list" where
  "beast_loop msgs buffer =
     (if length buffer \<ge> 23 then
        (if buffer ! 0 = 0x1A then
           (let msg_type = buffer ! 1
            in if msg_type = 0x33 then
                 (let msg_bytes = slice 9 23 buffer;
                      msg_hex = py_upper (bytes_hex msg_bytes)
                  in beast_loop (msgs @ [msg_hex]) (drop 23 buffer))
               else beast_loop msgs (drop 1 buffer))
         else beast_loop msgs (drop 1 buffer))
      else (msgs, buffer))"
  by pat_completeness auto
termination
  by (relation "measure (\<lambda>(msgs, buffer). length buffer)") auto

declare beast_loop.simps [simp del]

text \<open>
  One turn of the outer loop on the bytes \<open>data\<close> just received: both inner loops, then
  the buffer is cut to its last 1000 bytes when it holds more than 10000.
\<close>

definition extract_messages :: "int list \<Rightarrow> int list \<Rightarrow> string list \<times> int list" where
  "extract_messages buffer0 data =
     (let buffer = buffer0 @ data;
          (avr, buffer1) = avr_loop [] buffer;
          (msgs, buffer2) = beast_loop avr buffer1;
          buffer3 = (if length buffer2 > 10000 then drop (length buffer2 - 1000) buffer2
                     else buffer2)
      in (msgs, buffer3))"

text \<open>
  The same turn with the tracker: the messages are processed in order; one reading of the
  clock stands for those made while the turn lasts.
\<close>

definition handle_data :: "tracker \<Rightarrow> int list \<Rightarrow> int list \<Rightarrow> real \<Rightarrow> tracker \<times> int list" where
  "handle_data st buffer data now =
     (case extract_messages buffer data of
        (msgs, buffer') \<Rightarrow> (fold (\<lambda>msg s. process_message s msg now now) msgs st, buffer'))"

section \<open>Receiver of \<^verbatim>\<open>atc_debian9.py\<close>\<close>

text \<open>
  The decode of \<^verbatim>\<open>_decode_position\<close> from the four stored CPR numbers; the latitude and
  the longitude zone follow the bit read from the current message.
\<close>

definition cpr_global9 :: "int \<Rightarrow> int \<Rightarrow> int \<Rightarrow> int \<Rightarrow> int \<Rightarrow> (real \<times> real) option" where
  "cpr_global9 time_bit lat_even_cpr lon_even_cpr lat_odd_cpr lon_odd_cpr =
     (let dlat_even = 360 / 60;
          dlat_odd = 360 / 59;
          j = py_trunc (of_int (59 * lat_even_cpr - 60 * lat_odd_cpr) / 131072 + 1 / 2);
          lat_even0 = dlat_even * (of_int (j mod 60) + of_int lat_even_cpr / 131072);
          lat_odd0 = dlat_odd * (of_int (j mod 59) + of_int lat_odd_cpr / 131072);
          lat_even = (if lat_even0 \<ge> 270 then lat_even0 - 360 else lat_even0);
          lat_odd = (if lat_odd0 \<ge> 270 then lat_odd0 - 360 else lat_odd0);
          lat = (if time_bit = 0 then lat_even else lat_odd);
          nl = calculate_nl lat;
          ni = (if time_bit = 0 then max nl 1 else max (nl - 1) 1);
          dlon = 360 / of_int ni;
          m_raw = (of_int (lon_even_cpr * (nl - 1) - lon_odd_cpr * nl) / 131072 :: real);
          m = \<lfloor>m_raw + 1 / 2\<rfloor>;
          lon_raw = dlon * (of_int m
                     + of_int (if time_bit = 0 then lon_even_cpr else lon_odd_cpr) / 131072);
          lon = wrap_up (wrap_down lon_raw)
      in if - 90 \<le> lat \<and> lat \<le> 90 \<and> - 180 \<le> lon \<and> lon \<le> 180
         then Some (lat, lon) else None)"

text \<open>
  \<^verbatim>\<open>ADSBReceiver._decode_position\<close>. The parity is read from \<^verbatim>\<open>me_bin[20]\<close>; no
  timestamp is stored with a fragment. An exception gives \<^verbatim>\<open>(None, None, None)\<close>.
\<close>

definition decode_position9 ::
  "string \<Rightarrow> rx_aircraft9 \<Rightarrow> rx_aircraft9 \<times> real option \<times> real option \<times> int option" where
  "decode_position9 msg_hex ac =
     (let me_hex = slice 8 22 msg_hex
      in case py_int 16 me_hex of
           None \<Rightarrow> (ac, None, None, None)
         | Some me_int \<Rightarrow>
             (let me_bin = py_format 2 56 me_int;
                  alt_bin = slice 8 20 me_bin
              in case (py_int 2 alt_bin, int_at me_bin 20, py_int 2 (slice 22 39 me_bin),
                       py_int 2 (slice 39 56 me_bin)) of
                   (Some alt_int, Some time_bit, Some lat_cpr, Some lon_cpr) \<Rightarrow>
                     (let q_bit = drop_bit 4 alt_int AND 1;
                          altitude =
                            (if q_bit = 1 then
                               (let top_bits = drop_bit 5 alt_int AND 0x7F;
                                    bottom_bits = alt_int AND 0x0F;
                                    alt_code = push_bit 4 top_bits OR bottom_bits
                                in Some (alt_code * 25 - 1000))
                             else None);
                          ac1 = (if time_bit = 0
                                 then ac\<lparr>rx9_lat_even_cpr := Some lat_cpr,
                                         rx9_lon_even_cpr := Some lon_cpr\<rparr>
                                 else ac\<lparr>rx9_lat_odd_cpr := Some lat_cpr,
                                         rx9_lon_odd_cpr := Some lon_cpr\<rparr>)
                      in case (rx9_lat_even_cpr ac1, rx9_lon_even_cpr ac1,
                               rx9_lat_odd_cpr ac1, rx9_lon_odd_cpr ac1) of
                           (Some lat_even_cpr, Some lon_even_cpr,
                            Some lat_odd_cpr, Some lon_odd_cpr) \<Rightarrow>
                             (case cpr_global9 time_bit lat_even_cpr lon_even_cpr
                                     lat_odd_cpr lon_odd_cpr of
                                Some (lat, lon) \<Rightarrow> (ac1, Some lat, Some lon, altitude)
                              | None \<Rightarrow> (ac1, None, None, altitude))
                         | _ \<Rightarrow> (ac1, None, None, altitude))
                 | _ \<Rightarrow> (ac, None, None, None)))"

definition new_aircraft9 :: "string \<Rightarrow> real \<Rightarrow> rx_aircraft9" where
  "new_aircraft9 icao now =
     \<lparr>rx9_icao = icao, rx9_callsign = None, rx9_lat = None, rx9_lon = None,
      rx9_altitude = None, rx9_speed = None, rx9_heading = None, rx9_type = ''unknown'',
      rx9_last_seen = now, rx9_lat_even_cpr = None, rx9_lon_even_cpr = None,
      rx9_lat_odd_cpr = None, rx9_lon_odd_cpr = None\<rparr>"

text \<open>
  \<^verbatim>\<open>ADSBReceiver._process_message\<close>. The aircraft is inserted and \<^verbatim>\<open>last_seen\<close> is set
  before anything is parsed; an \<^verbatim>\<open>int()\<close> that raises afterwards leaves that update in
  place. Neither the length nor the downlink format is looked at here.
\<close>

definition process_message9 :: "tracker9 \<Rightarrow> string \<Rightarrow> real \<Rightarrow> tracker9" where
  "process_message9 st msg_hex now =
     (let icao = slice 2 8 msg_hex;
          ac0 = (case map_of (received_aircraft9 st) icao of
                   None \<Rightarrow> new_aircraft9 icao now
                 | Some a \<Rightarrow> a);
          ac1 = ac0\<lparr>rx9_last_seen := now\<rparr>;
          tc_opt = (case py_int 16 (slice 8 22 msg_hex) of
                      None \<Rightarrow> None
                    | Some me_int \<Rightarrow> py_int 2 (slice 0 5 (py_format 2 56 me_int)));
          ac2 =
            (case tc_opt of
               None \<Rightarrow> ac1
             | Some tc \<Rightarrow>
                 if 1 \<le> tc \<and> tc \<le> 4 then
                   (case decode_callsign msg_hex of
                      None \<Rightarrow> ac1
                    | Some callsign \<Rightarrow>
                        if callsign \<noteq> [] then ac1\<lparr>rx9_callsign := Some callsign\<rparr> else ac1)
                 else if 9 \<le> tc \<and> tc \<le> 18 then
                   (case decode_position9 msg_hex ac1 of
                      (ac', lat, lon, alt) \<Rightarrow>
                        (let a = (case (lat, lon) of
                                    (Some la, Some lo) \<Rightarrow> ac'\<lparr>rx9_lat := Some la, rx9_lon := Some lo\<rparr>
                                  | _ \<Rightarrow> ac')
                         in case alt of
                              None \<Rightarrow> a
                            | Some al \<Rightarrow> a\<lparr>rx9_altitude := Some al\<rparr>))
                 else if tc = 19 then
                   (case decode_velocity msg_hex of
                      (speed, heading) \<Rightarrow>
                        (let a = (case speed of
                                    None \<Rightarrow> ac1
                                  | Some v \<Rightarrow> ac1\<lparr>rx9_speed := Some v\<rparr>)
                         in case heading of
                              None \<Rightarrow> a
                            | Some h \<Rightarrow> a\<lparr>rx9_heading := Some h\<rparr>))
                 else ac1)
      in st\<lparr>received_aircraft9 := AList.update icao ac2 (received_aircraft9 st)\<rparr>)"

text \<open>
  One line of the input of \<^verbatim>\<open>ADSBReceiver._handle_client\<close>, the text between two
  newlines: a line \<^verbatim>\<open>*...;\<close> whose payload has 28 characters is counted and processed.
\<close>

definition handle_line9 :: "tracker9 \<Rightarrow> string \<Rightarrow> real \<Rightarrow> tracker9" where
  "handle_line9 st line now =
     (if line \<noteq> [] \<and> hd line = CHR ''*'' \<and> last line = CHR '';'' then
        (let msg_hex = slice 1 (length line - 1) line
         in if length msg_hex = 28
            then process_message9 (st\<lparr>message_count9 := message_count9 st + 1\<rparr>) msg_hex now
            else st)
      else st)"

section \<open>View endpoint\<close>

text \<open>
  One element of the \<^verbatim>\<open>aircraft\<close> array of the JSON snapshot. A field that is
  \<^verbatim>\<open>None\<close> in Python serialises as \<^verbatim>\<open>null\<close>.
\<close>

record entry =
  e_hex :: string
  e_flight :: string
  e_lat :: real
  e_lon :: real
  e_altitude :: "int option"
  e_track :: "real option"
  e_speed :: "real option"
  e_type :: string
  e_messages :: int
  e_seen :: int
  e_source :: string

record response =
  r_now :: real
  r_messages :: int
  r_aircraft :: "entry list"

definition simulated_entry :: "int \<Rightarrow> aircraft \<Rightarrow> entry" where
  "simulated_entry mc ac =
     \<lparr>e_hex = ac_icao ac, e_flight = ac_callsign ac,
      e_lat = fst (get_position ac), e_lon = snd (get_position ac),
      e_altitude = Some (ac_altitude ac), e_track = Some (get_heading ac),
      e_speed = Some (ac_speed_knots ac),
      e_type = (case ac_ac_type ac of Some t \<Rightarrow> t | None \<Rightarrow> ''civilian''),
      e_messages = mc, e_seen = 0, e_source = ''simulated''\<rparr>"

text \<open>
  The body of the last loop of \<^verbatim>\<open>serve_aircraft_json\<close>: an aircraft is appended only
  when both \<^verbatim>\<open>lat\<close> and \<^verbatim>\<open>lon\<close> are known. \<^verbatim>\<open>ac['callsign'] or icao\<close> is the ICAO key
  when the callsign is empty.
\<close>

definition received_entry :: "real \<Rightarrow> string \<times> rx_aircraft \<Rightarrow> entry list" where
  "received_entry current_time p =
     (case p of (icao, ac) \<Rightarrow>
        (case (rx_lat ac, rx_lon ac) of
           (Some la, Some lo) \<Rightarrow>
             [\<lparr>e_hex = rx_icao ac,
               e_flight = (if rx_callsign ac \<noteq> [] then rx_callsign ac else icao),
               e_lat = la, e_lon = lo,
               e_altitude = Some (rx_altitude ac), e_track = Some (rx_heading ac),
               e_speed = Some (rx_speed ac), e_type = rx_type ac,
               e_messages = 0, e_seen = py_trunc (current_time - rx_last_seen ac),
               e_source = ''adsb''\<rparr>]
         | _ \<Rightarrow> []))"

text \<open>
  \<^verbatim>\<open>WebHandler.serve_aircraft_json\<close> of \<^verbatim>\<open>atc_army_offline.py\<close>. \<open>current_time\<close> is the
  clock read at the start, \<open>now\<close> the clock read for the field \<^verbatim>\<open>"now"\<close>. The result is
  the tracker after the removal of the stale aircraft and the response that is
  serialised. The HTTP status line and headers are not modelled.
\<close>

definition serve_aircraft_json :: "tracker \<Rightarrow> real \<Rightarrow> real \<Rightarrow> tracker \<times> response" where
  "serve_aircraft_json st current_time now =
     (let simulated = map (simulated_entry (message_count st)) (aircraft_list st);
          stale = map fst (filter (\<lambda>(icao, data).
                     current_time - rx_last_seen data > AIRCRAFT_TIMEOUT)
                   (received_aircraft st));
          received = fold AList.delete stale (received_aircraft st);
          aircraft_data = simulated @ concat (map (received_entry current_time) received)
      in (st\<lparr>received_aircraft := received\<rparr>,
          \<lparr>r_now = now, r_messages = message_count st, r_aircraft = aircraft_data\<rparr>))"

definition simulated_entry9 :: "int \<Rightarrow> aircraft9 \<Rightarrow> entry" where
  "simulated_entry9 mc ac =
     \<lparr>e_hex = ac9_icao ac, e_flight = ac9_callsign ac,
      e_lat = fst (get_position9 ac), e_lon = snd (get_position9 ac),
      e_altitude = Some (ac9_altitude ac), e_track = Some (get_heading9 ac),
      e_speed = Some (ac9_speed_knots ac), e_type = ac9_ac_type ac,
      e_messages = mc, e_seen = 0, e_source = ''simulated''\<rparr>"

definition received_entry9 :: "real \<Rightarrow> string \<times> rx_aircraft9 \<Rightarrow> entry list" where
  "received_entry9 current_time p =
     (case p of (icao, ac) \<Rightarrow>
        (case (rx9_lat ac, rx9_lon ac) of
           (Some la, Some lo) \<Rightarrow>
             [\<lparr>e_hex = rx9_icao ac,
               e_flight = (case rx9_callsign ac of
                             None \<Rightarrow> icao
                           | Some c \<Rightarrow> (if c \<noteq> [] then c else icao)),
               e_lat = la, e_lon = lo,
               e_altitude = rx9_altitude ac, e_track = rx9_heading ac,
               e_speed = rx9_speed ac, e_type = rx9_type ac,
               e_messages = 0, e_seen = py_trunc (current_time - rx9_last_seen ac),
               e_source = ''adsb''\<rparr>]
         | _ \<Rightarrow> []))"

text \<open>\<^verbatim>\<open>WebHandler.serve_aircraft_json\<close> of \<^verbatim>\<open>atc_debian9.py\<close>.\<close>

definition serve_aircraft_json9 :: "tracker9 \<Rightarrow> real \<Rightarrow> real \<Rightarrow> tracker9 \<times> response" where
  "serve_aircraft_json9 st current_time now =
     (let simulated = map (simulated_entry9 (message_count9 st)) (aircraft_list9 st);
          stale = map fst (filter (\<lambda>(icao, data).
                     current_time - rx9_last_seen data > AIRCRAFT_TIMEOUT9)
                   (received_aircraft9 st));
          received = fold AList.delete stale (received_aircraft9 st);
          aircraft_data = simulated @ concat (map (received_entry9 current_time) received)
      in (st\<lparr>received_aircraft9 := received\<rparr>,
          \<lparr>r_now = now, r_messages = message_count9 st, r_aircraft = aircraft_data\<rparr>))"

text \<open>
  Well-formedness of the received-aircraft dict: keys are unique (it is a dict) and each
  value carries its key in the field \<^verbatim>\<open>icao\<close>, as \<^verbatim>\<open>_process_message\<close> creates it.
\<close>

definition rx_wf :: "(string \<times> rx_aircraft) list \<Rightarrow> bool" where
  "rx_wf d = (distinct (map fst d) \<and> list_all (\<lambda>(k, ac). rx_icao ac = k) d)"

definition rx_wf9 :: "(string \<times> rx_aircraft9) list \<Rightarrow> bool" where
  "rx_wf9 d = (distinct (map fst d) \<and> list_all (\<lambda>(k, ac). rx9_icao ac = k) d)"

text \<open>The elements of a snapshot that stand for received aircraft.\<close>

definition adsb_entries :: "response \<Rightarrow> entry list" where
  "adsb_entries r = filter (\<lambda>e. e_source e = ''adsb'') (r_aircraft r)"

section \<open>Notions used in the statements\<close>

text \<open>
  A string of digits of base \<open>b\<close> and nothing else, and the number it denotes. They
  describe what \<^const>\<open>py_int\<close> reads and \<^const>\<open>py_format\<close> writes.
\<close>

definition is_digit :: "nat \<Rightarrow> char \<Rightarrow> bool" where
  "is_digit b c = (case digit_val c of None \<Rightarrow> False | Some d \<Rightarrow> d < b)"

definition digits_value :: "nat \<Rightarrow> string \<Rightarrow> int" where
  "digits_value b s = foldl (\<lambda>a c. a * int b + int (the (digit_val c))) 0 s"

text \<open>The frames that the three encoders of each file can return.\<close>

definition encoder_frames :: "string set" where
  "encoder_frames =
     {f. (\<exists>icao callsign. encode_callsign icao callsign = Some f)
       \<or> (\<exists>icao lat lon alt time_bit. encode_position icao lat lon alt time_bit = Some f)
       \<or> (\<exists>icao speed heading vr. encode_velocity icao speed heading vr = Some f)}"

definition encoder_frames_gen :: "string set" where
  "encoder_frames_gen =
     {f. (\<exists>icao callsign. encode_callsign_gen icao callsign = Some f)
       \<or> (\<exists>icao lat lon alt time_bit. encode_position_gen icao lat lon alt time_bit = Some f)
       \<or> (\<exists>icao speed heading vr. encode_velocity_gen icao speed heading vr = Some f)}"


text \<open>
  A string of canonical digits of a base: the characters that \<^verbatim>\<open>format\<close> produces. A valid
  ICAO address is six hexadecimal digits.
\<close>

definition canon :: "int \<Rightarrow> string \<Rightarrow> bool" where
  "canon b s = list_all (\<lambda>c. \<exists>d. 0 \<le> d \<and> d < b \<and> c = digit_char d) s"

definition valid_icao :: "string \<Rightarrow> bool" where
  "valid_icao icao = (length icao = 6 \<and> list_all (is_digit 16) icao)"

text \<open>Small concrete trackers, used to instantiate the theorems below.\<close>

definition ex_rx :: "real option \<Rightarrow> real \<Rightarrow> rx_aircraft" where
  "ex_rx pos seen =
     \<lparr>rx_icao = ''AAA111'', rx_callsign = ''KLM1023'', rx_lat = pos, rx_lon = pos,
      rx_altitude = 35000, rx_speed = 420, rx_heading = 87, rx_last_seen = seen,
      rx_position_even = None, rx_position_odd = None, rx_type = ''civilian''\<rparr>"

definition ex_tracker :: "real option \<Rightarrow> real \<Rightarrow> tracker" where
  "ex_tracker pos seen =
     \<lparr>aircraft_list = [], received_aircraft = [(''AAA111'', ex_rx pos seen)],
      message_count = 1\<rparr>"

definition ex_rx9 :: "real option \<Rightarrow> real \<Rightarrow> rx_aircraft9" where
  "ex_rx9 pos seen =
     \<lparr>rx9_icao = ''AAA111'', rx9_callsign = Some ''KLM1023'', rx9_lat = pos, rx9_lon = pos,
      rx9_altitude = Some 35000, rx9_speed = Some 420, rx9_heading = Some 87,
      rx9_type = ''unknown'', rx9_last_seen = seen,
      rx9_lat_even_cpr = None, rx9_lon_even_cpr = None,
      rx9_lat_odd_cpr = None, rx9_lon_odd_cpr = None\<rparr>"

definition ex_tracker9 :: "real option \<Rightarrow> real \<Rightarrow> tracker9" where
  "ex_tracker9 pos seen =
     \<lparr>aircraft_list9 = [], received_aircraft9 = [(''AAA111'', ex_rx9 pos seen)],
      message_count9 = 1\<rparr>"

text \<open>The globals of \<^verbatim>\<open>atc_army_offline.py\<close> at start-up.\<close>

definition no_traffic :: tracker where
  "no_traffic = \<lparr>aircraft_list = [], received_aircraft = [], message_count = 0\<rparr>"

text \<open>The globals of \<^verbatim>\<open>atc_debian9.py\<close> at start-up.\<close>

definition no_traffic9 :: tracker9 where
  "no_traffic9 = \<lparr>aircraft_list9 = [], received_aircraft9 = [], message_count9 = 0\<rparr>"

section \<open>Digit strings: parsing and formatting\<close>

lemma digit_val_digit_char:
  assumes "0 \<le> d" "d < 16"
  shows "digit_val (digit_char d) = Some (nat d)"
proof -
  have "d = 0 \<or> d = 1 \<or> d = 2 \<or> d = 3 \<or> d = 4 \<or> d = 5 \<or> d = 6 \<or> d = 7 \<or> d = 8
      \<or> d = 9 \<or> d = 10 \<or> d = 11 \<or> d = 12 \<or> d = 13 \<or> d = 14 \<or> d = 15"
    using assms by arith
  then show ?thesis
    by (elim disjE; hypsubst; code_simp)
qed

lemma is_digit_not_special:
  assumes "is_digit b c"
  shows "\<not> is_space c" "c \<noteq> CHR ''-''" "c \<noteq> CHR ''+''" "c \<noteq> CHR ''_''"
proof -
  from assms obtain d where d: "digit_val c = Some d"
    by (auto simp: is_digit_def split: option.splits)
  then have r: "48 \<le> (of_char c :: nat)"
    by (auto simp: digit_val_def Let_def split: if_splits)
  then show "\<not> is_space c"
    by (auto simp: is_space_def Let_def)
  show "c \<noteq> CHR ''-''" "c \<noteq> CHR ''+''" "c \<noteq> CHR ''_''"
    using d by (auto simp: digit_val_def)
qed

lemma foldl_digits_acc:
  "foldl (\<lambda>a c. a * int b + int (the (digit_val c))) acc s
     = acc * int b ^ length s + digits_value b s"
proof (induction s rule: rev_induct)
  case Nil
  show ?case by (simp add: digits_value_def)
next
  case (snoc x xs)
  then show ?case
    by (simp add: digits_value_def algebra_simps)
qed

lemma digits_value_append:
  "digits_value b (s @ t) = digits_value b s * int b ^ length t + digits_value b t"
  unfolding digits_value_def foldl_append
  by (subst foldl_digits_acc) (simp add: digits_value_def)

lemma digit_val_zero: "digit_val CHR ''0'' = Some 0"
  by code_simp

lemma digits_value_zeros: "digits_value b (replicate k CHR ''0'') = 0"
  by (induction k) (simp_all add: digits_value_def digit_val_zero)

lemma py_digits_pure:
  assumes "list_all (is_digit b) s"
  shows "py_digits b acc prev s =
     (if s = [] then (if prev then Some acc else None)
      else Some (foldl (\<lambda>a c. a * int b + int (the (digit_val c))) acc s))"
  using assms
proof (induction s arbitrary: acc prev)
  case Nil
  show ?case by simp
next
  case (Cons c cs)
  from Cons.prems have c: "is_digit b c" and cs: "list_all (is_digit b) cs"
    by simp_all
  from c obtain d where d: "digit_val c = Some d" "d < b"
    by (auto simp: is_digit_def split: option.splits)
  show ?case
    using is_digit_not_special(4)[OF c] d Cons.IH[OF cs] by simp
qed

lemma py_strip_id:
  assumes "s \<noteq> []" "\<not> is_space (hd s)" "\<not> is_space (last s)"
  shows "py_strip s = s"
proof -
  have 1: "dropWhile is_space s = s"
    using assms(1,2) by (cases s) simp_all
  have 2: "dropWhile is_space (rev s) = rev s"
    using assms(1,3) by (cases "rev s") (simp_all add: last_rev[symmetric] hd_rev)
  show ?thesis by (simp add: py_strip_def 1 2)
qed

lemma skip_prefix_pure:
  assumes "list_all (is_digit b) s"
  shows "skip_prefix b s = s"
proof (cases s)
  case Nil
  then show ?thesis by (simp add: skip_prefix_def)
next
  case (Cons c0 r)
  show ?thesis
  proof (cases r)
    case Nil
    with Cons show ?thesis by (simp add: skip_prefix_def)
  next
    case (Cons c1 r')
    with assms \<open>s = c0 # r\<close> have "is_digit b c1" by simp
    then have "\<not> ((b = 16 \<and> (c1 = CHR ''x'' \<or> c1 = CHR ''X''))
              \<or> (b = 8 \<and> (c1 = CHR ''o'' \<or> c1 = CHR ''O''))
              \<or> (b = 2 \<and> (c1 = CHR ''b'' \<or> c1 = CHR ''B'')))"
      by (auto simp: is_digit_def digit_val_def)
    with Cons \<open>s = c0 # r\<close> show ?thesis
      by (auto simp: skip_prefix_def)
  qed
qed

lemma py_int_pure:
  assumes ne: "s \<noteq> []" and pure: "list_all (is_digit b) s"
  shows "py_int b s = Some (digits_value b s)"
proof -
  from ne pure have h: "is_digit b (hd s)" and l: "is_digit b (last s)"
    by (auto simp: list_all_iff)
  have strip: "py_strip s = s"
    using ne is_digit_not_special(1)[OF h] is_digit_not_special(1)[OF l]
    by (rule py_strip_id)
  from ne obtain c r where s: "s = c # r" by (cases s) auto
  with h have c: "c \<noteq> CHR ''-''" "c \<noteq> CHR ''+''"
    using is_digit_not_special by auto
  have "py_int b s = py_digits b 0 False (skip_prefix b s)"
    unfolding py_int_def strip Let_def using s c by simp
  also have "\<dots> = py_digits b 0 False s"
    by (simp add: skip_prefix_pure[OF pure])
  also have "\<dots> = Some (digits_value b s)"
    using ne by (simp add: py_digits_pure[OF pure] digits_value_def)
  finally show ?thesis .
qed


lemma digits_value_single: "digits_value b [c] = int (the (digit_val c))"
  by (simp add: digits_value_def)

lemma int_digits_pure:
  assumes "2 \<le> b" "b \<le> 16" "0 \<le> n"
  shows "list_all (is_digit (nat b)) (int_digits b n) \<and> digits_value (nat b) (int_digits b n) = n"
  using assms
proof (induction b n rule: int_digits.induct)
  case (1 b n)
  show ?case
  proof (cases "n < b")
    case True
    with 1 have dv: "digit_val (digit_char n) = Some (nat n)"
      by (intro digit_val_digit_char) simp_all
    have eq: "int_digits b n = [digit_char n]"
      using True by (simp add: int_digits.simps[of b n])
    show ?thesis
      unfolding eq using dv True 1(4) by (simp add: is_digit_def digits_value_single)
  next
    case False
    with 1 have eq: "int_digits b n = int_digits b (n div b) @ [digit_char (n mod b)]"
      by (simp add: int_digits.simps[of b n])
    have q: "0 \<le> n div b"
      using 1(2,4) by (simp add: pos_imp_zdiv_nonneg_iff)
    have r: "0 \<le> n mod b" "n mod b < b" "n mod b < 16"
      using 1(2,3) by (simp_all add: pos_mod_bound[THEN less_le_trans])
    have dv: "digit_val (digit_char (n mod b)) = Some (nat (n mod b))"
      using r by (intro digit_val_digit_char)
    from 1(1)[OF _ 1(2) 1(3) q] False 1(2)
    have IH: "list_all (is_digit (nat b)) (int_digits b (n div b))"
      "digits_value (nat b) (int_digits b (n div b)) = n div b"
      by simp_all
    have "digits_value (nat b) (int_digits b n) = (n div b) * b + n mod b"
      unfolding eq digits_value_append IH(2) using dv 1(2) r
      by (simp add: digits_value_single)
    then have v: "digits_value (nat b) (int_digits b n) = n"
      by simp
    have p: "list_all (is_digit (nat b)) (int_digits b n)"
      unfolding eq using IH(1) dv r 1(2) by (simp add: is_digit_def)
    from p v show ?thesis by simp
  qed
qed

lemma int_digits_nonempty: "int_digits b n \<noteq> []"
  by (simp add: int_digits.simps[of b n])

lemma int_digits_bound:
  assumes "2 \<le> b" "0 \<le> n"
  shows "n < b ^ length (int_digits b n)"
  using assms
proof (induction b n rule: int_digits.induct)
  case (1 b n)
  show ?case
  proof (cases "n < b")
    case True
    then have "int_digits b n = [digit_char n]" by (simp add: int_digits.simps[of b n])
    with True show ?thesis by simp
  next
    case False
    with 1 have eq: "int_digits b n = int_digits b (n div b) @ [digit_char (n mod b)]"
      by (simp add: int_digits.simps[of b n])
    have q: "0 \<le> n div b"
      using 1(2,3) by (simp add: pos_imp_zdiv_nonneg_iff)
    from 1(1)[OF _ 1(2) q] False 1(2)
    have IH: "n div b < b ^ length (int_digits b (n div b))" by simp
    then have "n div b + 1 \<le> b ^ length (int_digits b (n div b))" by simp
    then have "b * (n div b + 1) \<le> b * b ^ length (int_digits b (n div b))"
      using 1(2) by (intro mult_left_mono) simp_all
    moreover have "n < b * (n div b + 1)"
    proof -
      have e: "b * (n div b) + n mod b = n" by (rule mult_div_mod_eq)
      have m: "n mod b < b" using 1(2) by simp
      have "n < b * (n div b) + b" using e m by linarith
      then show ?thesis by (simp add: algebra_simps)
    qed
    ultimately show ?thesis unfolding eq by simp
  qed
qed

lemma int_digits_length_le:
  assumes "2 \<le> b" "0 \<le> n" "n < b ^ w" "0 < w"
  shows "length (int_digits b n) \<le> w"
  using assms
proof (induction b n arbitrary: w rule: int_digits.induct)
  case (1 b n)
  show ?case
  proof (cases "n < b")
    case True
    then have "int_digits b n = [digit_char n]" by (simp add: int_digits.simps[of b n])
    with 1(5) show ?thesis by simp
  next
    case False
    with 1 have eq: "int_digits b n = int_digits b (n div b) @ [digit_char (n mod b)]"
      by (simp add: int_digits.simps[of b n])
    have q: "0 \<le> n div b"
      using 1(2,3) by (simp add: pos_imp_zdiv_nonneg_iff)
    have w1: "1 < w"
    proof (rule ccontr)
      assume "\<not> 1 < w"
      with 1(5) have "w = 1" by simp
      with 1(4) False show False by simp
    qed
    then obtain w' where w': "w = Suc w'" "0 < w'"
      by (cases w) auto
    have "n div b < b ^ w'"
    proof (rule ccontr)
      assume "\<not> n div b < b ^ w'"
      then have "b ^ w' \<le> n div b" by simp
      then have "b ^ w' * b \<le> n div b * b"
        using 1(2) by (intro mult_right_mono) simp_all
      moreover have e: "n div b * b + n mod b = n" by (rule div_mult_mod_eq)
      moreover have "0 \<le> n mod b" using 1(2) by simp
      ultimately have "b ^ w' * b \<le> n" by linarith
      with 1(4) w' show False by (simp add: mult.commute)
    qed
    from 1(1)[OF _ 1(2) q this w'(2)] False 1(2)
    have "length (int_digits b (n div b)) \<le> w'" by simp
    then show ?thesis unfolding eq w' by simp
  qed
qed

lemma py_format_nonneg:
  "0 \<le> n \<Longrightarrow> py_format b w n = replicate (w - length (int_digits b n)) CHR ''0'' @ int_digits b n"
  by (simp add: py_format_def Let_def)

lemma is_digit_zero: "0 < b \<Longrightarrow> is_digit b CHR ''0''"
  by (simp add: is_digit_def digit_val_zero)

lemma py_format_pure:
  assumes "2 \<le> b" "b \<le> 16" "0 \<le> n"
  shows "list_all (is_digit (nat b)) (py_format b w n)"
    and "digits_value (nat b) (py_format b w n) = n"
    and "py_format b w n \<noteq> []"
proof -
  note p = int_digits_pure[OF assms]
  have z: "is_digit (nat b) CHR ''0''"
    using assms(1) by (intro is_digit_zero) simp
  show "list_all (is_digit (nat b)) (py_format b w n)"
    unfolding py_format_nonneg[OF assms(3)] using p z by (auto simp: list_all_iff)
  show "digits_value (nat b) (py_format b w n) = n"
    unfolding py_format_nonneg[OF assms(3)] digits_value_append digits_value_zeros
    using p by simp
  show "py_format b w n \<noteq> []"
    unfolding py_format_nonneg[OF assms(3)] using int_digits_nonempty by simp
qed

lemma py_format_length:
  assumes "2 \<le> b" "0 \<le> n" "n < b ^ w" "0 < w"
  shows "length (py_format b w n) = w"
  unfolding py_format_nonneg[OF assms(2)]
  using int_digits_length_le[OF assms] by simp

lemma py_format_length_ge: "0 \<le> n \<Longrightarrow> w \<le> length (py_format b w n)"
  unfolding py_format_nonneg by simp

lemma digits_value_bound:
  assumes "list_all (is_digit b) s"
  shows "0 \<le> digits_value b s \<and> digits_value b s < int b ^ length s"
  using assms
proof (induction s rule: rev_induct)
  case Nil
  show ?case by (simp add: digits_value_def)
next
  case (snoc c s)
  then have IH: "0 \<le> digits_value b s" "digits_value b s < int b ^ length s"
    and c: "is_digit b c" by simp_all
  from c obtain d where d: "digit_val c = Some d" "d < b"
    by (auto simp: is_digit_def split: option.splits)
  have v: "digits_value b (s @ [c]) = digits_value b s * int b + int d"
    unfolding digits_value_append using d by (simp add: digits_value_single)
  have "digits_value b s + 1 \<le> int b ^ length s" using IH(2) by simp
  then have "(digits_value b s + 1) * int b \<le> int b ^ length s * int b"
    by (intro mult_right_mono) simp_all
  moreover have "digits_value b s * int b + int d < (digits_value b s + 1) * int b"
    using d(2) by (simp add: algebra_simps)
  ultimately have "digits_value b s * int b + int d < int b ^ length s * int b"
    by linarith
  then have "digits_value b (s @ [c]) < int b ^ length (s @ [c])"
    unfolding v by (simp add: mult.commute)
  moreover have "0 \<le> digits_value b (s @ [c])"
    unfolding v using IH(1) by simp
  ultimately show ?case by simp
qed

section \<open>The CRC is linear in the low 24 bits\<close>

lemma and_one_neq_zero_iff_bit: "(drop_bit k (m::int) AND 1 \<noteq> 0) = bit m k"
  by (simp add: and_one_eq bit_iff_odd_drop_bit odd_iff_mod_2_eq_one)

lemma bit_small_false:
  assumes "0 \<le> c" "c < 2 ^ 24" "24 \<le> k"
  shows "\<not> bit (c::int) k"
proof -
  have "take_bit 24 c = c"
    using assms by (simp add: take_bit_int_eq_self)
  then have "bit c k = bit (take_bit 24 c) k" by simp
  also have "\<dots> = False"
    using assms(3) by (simp add: bit_take_bit_iff)
  finally show ?thesis by simp
qed

lemma crc_step_xor:
  assumes "0 \<le> c" "c < 2 ^ 24" "i + 24 < len"
  shows "crc_step len (m XOR c) i = crc_step len m i XOR c"
proof -
  have "24 \<le> len - 1 - i" using assms(3) by simp
  then have "\<not> bit c (len - 1 - i)"
    using assms(1,2) by (rule bit_small_false[rotated 2])
  then have "bit (m XOR c) (len - 1 - i) = bit m (len - 1 - i)"
    by (simp add: bit_xor_iff)
  then show ?thesis
    unfolding crc_step_def and_one_neq_zero_iff_bit
    by (simp add: xor.assoc xor.commute xor.left_commute)
qed

lemma crc_step_gen_xor:
  assumes "0 \<le> c" "c < 2 ^ 24" "i + 24 < len"
  shows "crc_step_gen len (m XOR c) i = crc_step_gen len m i XOR c"
proof -
  have "24 \<le> len - i - 1" using assms(3) by simp
  then have "\<not> bit c (len - i - 1)"
    using assms(1,2) by (rule bit_small_false[rotated 2])
  then have "bit (m XOR c) (len - i - 1) = bit m (len - i - 1)"
    by (simp add: bit_xor_iff)
  then show ?thesis
    unfolding crc_step_gen_def and_one_neq_zero_iff_bit
    by (simp add: xor.assoc xor.commute xor.left_commute)
qed

lemma foldl_step_xor:
  assumes step: "\<And>m i. i \<in> set is \<Longrightarrow> f (m XOR c) i = f m i XOR (c::int)"
  shows "foldl f (m XOR c) is = foldl f m is XOR c"
  using step by (induction "is" arbitrary: m) simp_all

lemma residue_zero:
  assumes step: "\<And>m i. i \<in> set is \<Longrightarrow> f (m XOR c) i = f m i XOR (c::int)"
    and c: "c = foldl f (push_bit 24 v) is AND 0xFFFFFF"
  shows "foldl f (push_bit 24 v + c) is AND 0xFFFFFF = 0"
proof -
  have m: "(0xFFFFFF :: int) = mask 24" by (simp add: mask_eq_exp_minus_1)
  have c': "c = take_bit 24 (foldl f (push_bit 24 v) is)"
    unfolding c m by (simp add: take_bit_eq_mask)
  then have tc: "take_bit 24 c = c" by simp
  have "push_bit 24 v AND c = 0"
    by (subst tc[symmetric]) (auto simp: bit_eq_iff bit_simps)
  then have "push_bit 24 v + c = push_bit 24 v XOR c"
    by (rule disjunctive_add_eq_xor)
  then have "foldl f (push_bit 24 v + c) is = foldl f (push_bit 24 v) is XOR c"
    using foldl_step_xor[of "is" f c "push_bit 24 v"] step by simp
  then have "foldl f (push_bit 24 v + c) is AND 0xFFFFFF
      = take_bit 24 (foldl f (push_bit 24 v) is XOR c)"
    unfolding m by (simp add: take_bit_eq_mask)
  also have "\<dots> = take_bit 24 (foldl f (push_bit 24 v) is) XOR take_bit 24 c"
    by simp
  also have "\<dots> = 0"
    unfolding tc using c' by simp
  finally show ?thesis .
qed

lemma py_zfill_digits:
  assumes "0 \<le> v"
  shows "py_zfill w (drop 2 (py_bin v)) = py_format 2 w v"
proof -
  have d: "drop 2 (py_bin v) = int_digits 2 v"
    using assms by (simp add: py_bin_def)
  obtain c r where cr: "int_digits 2 v = c # r"
    using int_digits_nonempty[of 2 v] by (cases "int_digits 2 v") auto
  have "list_all (is_digit (nat 2)) (int_digits 2 v)"
    using int_digits_pure[of 2 v] assms by simp
  with cr have "is_digit (nat 2) c" by simp
  then have "c \<noteq> CHR ''+''" "c \<noteq> CHR ''-''"
    using is_digit_not_special by auto
  then show ?thesis
    unfolding d py_format_nonneg[OF assms] by (simp add: py_zfill_def cr)
qed

lemma msg_bin_pure:
  assumes ne: "s \<noteq> []" and pure: "list_all (is_digit 16) s"
  defines "v \<equiv> digits_value 16 s"
  defines "B \<equiv> py_zfill (length s * 4) (drop 2 (py_bin v))"
  shows "py_int 2 B = Some v" "length B = length s * 4"
    "py_int 2 (B @ replicate 24 CHR ''0'') = Some (push_bit 24 v)"
    "length (B @ replicate 24 CHR ''0'') = length s * 4 + 24"
proof -
  have v: "0 \<le> v" "v < 16 ^ length s"
    using digits_value_bound[OF pure] by (simp_all add: v_def)
  have "(16::int) ^ length s = (2 ^ 4) ^ length s" by simp
  also have "\<dots> = 2 ^ (4 * length s)" by (rule power_mult[symmetric])
  finally have "(16::int) ^ length s = 2 ^ (length s * 4)" by (simp add: mult.commute)
  with v have v2: "v < 2 ^ (length s * 4)" by simp
  have B: "B = py_format 2 (length s * 4) v"
    unfolding B_def by (rule py_zfill_digits[OF v(1)])
  have pB: "list_all (is_digit 2) B" and vB: "digits_value 2 B = v" and neB: "B \<noteq> []"
    using py_format_pure[of 2 v "length s * 4"] v(1) unfolding B by simp_all
  show lB: "length B = length s * 4"
    unfolding B using ne by (intro py_format_length[OF _ v(1) v2]) simp_all
  show "py_int 2 B = Some v"
    using py_int_pure[OF neB pB] vB by simp
  have z: "list_all (is_digit 2) (replicate 24 CHR ''0'')"
    by (simp add: list_all_iff is_digit_zero)
  have "py_int 2 (B @ replicate 24 CHR ''0'') = Some (digits_value 2 (B @ replicate 24 CHR ''0''))"
    using neB pB z by (intro py_int_pure) simp_all
  also have "digits_value 2 (B @ replicate 24 CHR ''0'') = push_bit 24 v"
    unfolding digits_value_append digits_value_zeros vB by (simp add: push_bit_eq_mult)
  finally show "py_int 2 (B @ replicate 24 CHR ''0'') = Some (push_bit 24 v)" .
  show "length (B @ replicate 24 CHR ''0'') = length s * 4 + 24"
    using lB by simp
qed

lemma crc_pure:
  assumes ne: "s \<noteq> []" and pure: "list_all (is_digit 16) s"
  shows "crc s True = Some (foldl (crc_step (length s * 4 + 24)) (push_bit 24 (digits_value 16 s))
                        [0 ..< length s * 4] AND 0xFFFFFF)"
    and "crc s False = Some (foldl (crc_step (length s * 4)) (digits_value 16 s)
                        [0 ..< length s * 4 - 24] AND 0xFFFFFF)"
  using msg_bin_pure[OF ne pure] py_int_pure[OF ne pure]
  by (simp_all add: crc_def Let_def)

lemma crc_gen_pure:
  assumes ne: "s \<noteq> []" and pure: "list_all (is_digit 16) s"
  shows "crc_gen s True = Some (foldl (crc_step_gen (length s * 4 + 24)) (push_bit 24 (digits_value 16 s))
                        [0 ..< length s * 4] AND 0xFFFFFF)"
    and "crc_gen s False = Some (foldl (crc_step_gen (length s * 4)) (digits_value 16 s)
                        [0 ..< length s * 4 - 24] AND 0xFFFFFF)"
  using msg_bin_pure[OF ne pure] py_int_pure[OF ne pure]
  by (simp_all add: crc_gen_def Let_def)

lemma and_mask24_bounds: "0 \<le> (x::int) AND 0xFFFFFF" "(x::int) AND 0xFFFFFF < 2 ^ 24"
proof -
  have m: "(0xFFFFFF :: int) = mask 24" by (simp add: mask_eq_exp_minus_1)
  show "0 \<le> x AND 0xFFFFFF" unfolding m by (simp add: take_bit_eq_mask[symmetric])
  show "x AND 0xFFFFFF < 2 ^ 24"
    unfolding m take_bit_eq_mask[symmetric] by (rule take_bit_int_less_exp)
qed

lemma frame_pure:
  assumes ne: "s \<noteq> []" and pure: "list_all (is_digit 16) s"
    and c: "0 \<le> c" "c < 2 ^ 24"
  shows "s @ py_format 16 6 c \<noteq> []" "list_all (is_digit 16) (s @ py_format 16 6 c)"
    "digits_value 16 (s @ py_format 16 6 c) = push_bit 24 (digits_value 16 s) + c"
    "length (s @ py_format 16 6 c) * 4 = length s * 4 + 24"
proof -
  have c16: "c < 16 ^ 6" using c(2) by simp
  have l: "length (py_format 16 6 c) = 6"
    using c(1) c16 by (intro py_format_length) simp_all
  have p: "list_all (is_digit 16) (py_format 16 6 c)" and vv: "digits_value 16 (py_format 16 6 c) = c"
    using py_format_pure[of 16 c 6] c(1) by simp_all
  show "s @ py_format 16 6 c \<noteq> []" using ne by simp
  show "list_all (is_digit 16) (s @ py_format 16 6 c)" using pure p by simp
  show "digits_value 16 (s @ py_format 16 6 c) = push_bit 24 (digits_value 16 s) + c"
    unfolding digits_value_append l vv by (simp add: push_bit_eq_mult)
  show "length (s @ py_format 16 6 c) * 4 = length s * 4 + 24"
    using l by simp
qed

lemma crc_zero_residue:
  assumes ne: "s \<noteq> []" and pure: "list_all (is_digit 16) s"
    and c: "crc s True = Some c"
  shows "crc (s @ py_format 16 6 c) False = Some 0"
proof -
  let ?v = "digits_value 16 s"
  let ?L = "length s * 4 + 24"
  have cdef: "c = foldl (crc_step ?L) (push_bit 24 ?v) [0 ..< length s * 4] AND 0xFFFFFF"
    using c crc_pure(1)[OF ne pure] by simp
  have cb: "0 \<le> c" "c < 2 ^ 24"
    unfolding cdef by (rule and_mask24_bounds)+
  note f = frame_pure[OF ne pure cb]
  have step: "\<And>m i. i \<in> set [0 ..< length s * 4] \<Longrightarrow> crc_step ?L (m XOR c) i = crc_step ?L m i XOR c"
    using cb by (intro crc_step_xor) simp_all
  have "crc (s @ py_format 16 6 c) False
      = Some (foldl (crc_step ?L) (push_bit 24 ?v + c) [0 ..< length s * 4] AND 0xFFFFFF)"
    unfolding crc_pure(2)[OF f(1) f(2)] f(3) f(4) by simp
  also have "\<dots> = Some 0"
    using residue_zero[OF step cdef] by simp
  finally show ?thesis .
qed

lemma crc_gen_zero_residue:
  assumes ne: "s \<noteq> []" and pure: "list_all (is_digit 16) s"
    and c: "crc_gen s True = Some c"
  shows "crc_gen (s @ py_format 16 6 c) False = Some 0"
proof -
  let ?v = "digits_value 16 s"
  let ?L = "length s * 4 + 24"
  have cdef: "c = foldl (crc_step_gen ?L) (push_bit 24 ?v) [0 ..< length s * 4] AND 0xFFFFFF"
    using c crc_gen_pure(1)[OF ne pure] by simp
  have cb: "0 \<le> c" "c < 2 ^ 24"
    unfolding cdef by (rule and_mask24_bounds)+
  note f = frame_pure[OF ne pure cb]
  have step: "\<And>m i. i \<in> set [0 ..< length s * 4] \<Longrightarrow> crc_step_gen ?L (m XOR c) i = crc_step_gen ?L m i XOR c"
    using cb by (intro crc_step_gen_xor) simp_all
  have "crc_gen (s @ py_format 16 6 c) False
      = Some (foldl (crc_step_gen ?L) (push_bit 24 ?v + c) [0 ..< length s * 4] AND 0xFFFFFF)"
    unfolding crc_gen_pure(2)[OF f(1) f(2)] f(3) f(4) by simp
  also have "\<dots> = Some 0"
    using residue_zero[OF step cdef] by simp
  finally show ?thesis .
qed

lemma py_digits_nonneg:
  "py_digits b acc prev s = Some v \<Longrightarrow> 0 \<le> acc \<Longrightarrow> 0 \<le> v"
proof (induction s arbitrary: acc prev)
  case Nil
  then show ?case by (simp split: if_splits)
next
  case (Cons c cs)
  show ?case
  proof (cases "c = CHR ''_''")
    case True
    with Cons.prems have "py_digits b acc False cs = Some v"
      by (simp split: if_splits)
    then show ?thesis using Cons.prems(2) by (rule Cons.IH)
  next
    case False
    with Cons.prems obtain d where "digit_val c = Some d" "d < b"
      "py_digits b (acc * int b + int d) True cs = Some v"
      by (auto split: option.splits if_splits)
    moreover have "0 \<le> acc * int b + int d"
      using Cons.prems(2) by simp
    ultimately show ?thesis using Cons.IH by blast
  qed
qed

lemma py_strip_Cons:
  assumes "\<not> is_space c"
  shows "\<exists>t. py_strip (c # s) = c # t"
proof -
  have 1: "dropWhile is_space (c # s) = c # s" using assms by simp
  have "dropWhile is_space (rev s @ [c]) = dropWhile is_space (rev s) @ [c]
        \<or> dropWhile is_space (rev s @ [c]) = [c]"
    using assms by (simp add: dropWhile_append)
  then have "\<exists>u. dropWhile is_space (rev (c # s)) = u @ [c]"
    by auto
  then obtain u where "dropWhile is_space (rev (c # s)) = u @ [c]" by blast
  then show ?thesis
    unfolding py_strip_def 1 by simp
qed

lemma py_int_nonneg:
  assumes "py_int b (c # s) = Some v" "\<not> is_space c" "c \<noteq> CHR ''-''"
  shows "0 \<le> v"
proof -
  from py_strip_Cons[OF assms(2)] obtain t where t: "py_strip (c # s) = c # t" by blast
  from assms(1) have "py_digits b 0 False (skip_prefix b t) = Some v
                    \<or> py_digits b 0 False (skip_prefix b (c # t)) = Some v"
    unfolding py_int_def t Let_def using assms(3) by (simp split: if_splits)
  then show ?thesis
    using py_digits_nonneg[of b 0 False _ v] by auto
qed

lemma py_format_17: "py_format 2 5 17 = ''10001''"
  by code_simp

lemma one_not_special: "\<not> is_space CHR ''1''" "CHR ''1'' \<noteq> CHR ''-''"
  by (simp_all add: is_space_def)

lemma seal_residue:
  assumes "seal w (CHR ''1'' # r) = Some f"
  shows "crc f False = Some 0"
proof -
  from assms obtain v c where v: "py_int 2 (CHR ''1'' # r) = Some v"
    and c: "crc (py_format 16 w v) True = Some c"
    and f: "f = py_format 16 w v @ py_format 16 6 c"
    unfolding seal_def Let_def by (auto split: option.splits)
  have v0: "0 \<le> v"
    using v one_not_special by (rule py_int_nonneg)
  show ?thesis
    unfolding f using py_format_pure[of 16 v w] v0 c
    by (intro crc_zero_residue) simp_all
qed

lemma seal_gen_residue:
  assumes "seal_gen w (CHR ''1'' # r) = Some f"
  shows "crc_gen f False = Some 0"
proof -
  from assms obtain v c where v: "py_int 2 (CHR ''1'' # r) = Some v"
    and c: "crc_gen (py_format 16 w v) True = Some c"
    and f: "f = py_format 16 w v @ py_format 16 6 c"
    unfolding seal_gen_def Let_def by (auto split: option.splits)
  have v0: "0 \<le> v"
    using v one_not_special by (rule py_int_nonneg)
  show ?thesis
    unfolding f using py_format_pure[of 16 v w] v0 c
    by (intro crc_gen_zero_residue) simp_all
qed

lemma encode_callsign_residue:
  assumes "encode_callsign icao cs = Some f"
  shows "crc f False = Some 0"
proof (cases "py_int 16 icao")
  case None
  with assms show ?thesis by (simp add: encode_callsign_def)
next
  case (Some i)
  with assms show ?thesis
    unfolding encode_callsign_def Let_def py_format_17
    by (simp add: seal_residue)
qed

lemma encode_position_residue:
  assumes "encode_position icao lat lon alt tb = Some f"
  shows "crc f False = Some 0"
proof (cases "py_int 16 icao")
  case None
  with assms show ?thesis by (simp add: encode_position_def)
next
  case (Some i)
  with assms show ?thesis
    unfolding encode_position_def Let_def py_format_17
    by (simp add: seal_residue split: if_splits)
qed

lemma encode_velocity_residue:
  assumes "encode_velocity icao speed heading vr = Some f"
  shows "crc f False = Some 0"
proof (cases "py_int 16 icao")
  case None
  with assms show ?thesis by (simp add: encode_velocity_def)
next
  case (Some i)
  with assms show ?thesis
    unfolding encode_velocity_def Let_def py_format_17
    by (simp add: seal_residue split: if_splits)
qed

lemma encode_callsign_gen_residue:
  assumes "encode_callsign_gen icao cs = Some f"
  shows "crc_gen f False = Some 0"
proof (cases "py_int 16 icao")
  case None
  with assms show ?thesis by (simp add: encode_callsign_gen_def)
next
  case (Some i)
  with assms show ?thesis
    unfolding encode_callsign_gen_def Let_def py_format_17
    by (simp add: seal_gen_residue)
qed

lemma encode_position_gen_residue:
  assumes "encode_position_gen icao lat lon alt tb = Some f"
  shows "crc_gen f False = Some 0"
proof (cases "py_int 16 icao")
  case None
  with assms show ?thesis by (simp add: encode_position_gen_def)
next
  case (Some i)
  with assms show ?thesis
    unfolding encode_position_gen_def Let_def py_format_17
    by (simp add: seal_gen_residue split: if_splits)
qed

lemma encode_velocity_gen_residue:
  assumes "encode_velocity_gen icao speed heading vr = Some f"
  shows "crc_gen f False = Some 0"
proof (cases "py_int 16 icao")
  case None
  with assms show ?thesis by (simp add: encode_velocity_gen_def)
next
  case (Some i)
  with assms show ?thesis
    unfolding encode_velocity_gen_def Let_def py_format_17
    by (simp add: seal_gen_residue split: if_splits)
qed

text \<open>
  Claim C1 (zero residue). Every frame that an encoder returns (identification, airborne
  position, airborne velocity; in \<^verbatim>\<open>aircraft_simulator.py\<close> and in \<^verbatim>\<open>send_adsb.py\<close>)
  has CRC 0 when the \<^verbatim>\<open>crc\<close> function of the same file is run over the whole frame in
  verify mode (\<^verbatim>\<open>encode=False\<close>).
\<close>

theorem C1_crc_zero_residue:
  assumes "f \<in> encoder_frames" and "g \<in> encoder_frames_gen"
  shows "crc f False = Some 0 \<and> crc_gen g False = Some 0"
proof
  from assms(1) show "crc f False = Some 0"
    unfolding encoder_frames_def
    using encode_callsign_residue encode_position_residue encode_velocity_residue by blast
  from assms(2) show "crc_gen g False = Some 0"
    unfolding encoder_frames_gen_def
    using encode_callsign_gen_residue encode_position_gen_residue encode_velocity_gen_residue
    by blast
qed

lemma ex_callsign:
  "encode_callsign ''4840D6'' ''KLM1023 '' = Some ''8D4840D6202CC371C32CE0F4AB80''"
  by code_simp

lemma ex_callsign_gen:
  "encode_callsign_gen ''4840D6'' ''KLM1023 '' = Some ''8D4840D6202CC371C32CE075FD21''"
  by code_simp

theorem C1_crc_zero_residue_witness:
  "''8D4840D6202CC371C32CE0F4AB80'' \<in> encoder_frames
   \<and> ''8D4840D6202CC371C32CE075FD21'' \<in> encoder_frames_gen
   \<and> crc ''8D4840D6202CC371C32CE0F4AB80'' False = Some 0
   \<and> crc_gen ''8D4840D6202CC371C32CE075FD21'' False = Some 0"
proof -
  have h1: "''8D4840D6202CC371C32CE0F4AB80'' \<in> encoder_frames"
    unfolding encoder_frames_def using ex_callsign by blast
  have h2: "''8D4840D6202CC371C32CE075FD21'' \<in> encoder_frames_gen"
    unfolding encoder_frames_gen_def using ex_callsign_gen by blast
  note c = C1_crc_zero_residue[OF h1 h2]
  show ?thesis
    using h1 h2 c[THEN conjunct1] c[THEN conjunct2] by (intro conjI)
qed

section \<open>The view: staleness and unknown positions\<close>

lemma ball_neq_image: "(\<forall>e \<in> S. f e \<noteq> k) \<Longrightarrow> k \<notin> f ` S"
  by auto

lemma fold_delete_filter:
  "fold AList.delete ks d = filter (\<lambda>p. fst p \<notin> set ks) d"
proof (induction ks arbitrary: d)
  case Nil
  show ?case by simp
next
  case (Cons k ks)
  have "fold AList.delete (k # ks) d = fold AList.delete ks (AList.delete k d)"
    by simp
  also have "\<dots> = filter (\<lambda>p. fst p \<notin> set ks) (AList.delete k d)"
    by (rule Cons.IH)
  also have "\<dots> = filter (\<lambda>p. fst p \<notin> set (k # ks)) d"
    by (auto simp: AList.delete_eq intro: filter_cong)
  finally show ?case .
qed

lemma adsb_entries_serve:
  "adsb_entries (snd (serve_aircraft_json st current_time now)) =
     concat (map (received_entry current_time)
       (filter (\<lambda>p. fst p \<notin> set (map fst (filter (\<lambda>(icao, data).
                     current_time - rx_last_seen data > AIRCRAFT_TIMEOUT)
                   (received_aircraft st))))
          (received_aircraft st)))"
proof -
  have sim: "filter (\<lambda>e. e_source e = ''adsb'') (map (simulated_entry mc) xs) = []" for mc xs
    by (induction xs) (simp_all add: simulated_entry_def)
  have rcv: "filter (\<lambda>e. e_source e = ''adsb'') (concat (map (received_entry current_time) ys))
               = concat (map (received_entry current_time) ys)" for ys
    by (induction ys) (auto simp: received_entry_def split: option.splits)
  show ?thesis
    by (simp add: adsb_entries_def serve_aircraft_json_def Let_def sim rcv fold_delete_filter)
qed

lemma received_serve:
  "received_aircraft (fst (serve_aircraft_json st current_time now)) =
     filter (\<lambda>p. fst p \<notin> set (map fst (filter (\<lambda>(icao, data).
                     current_time - rx_last_seen data > AIRCRAFT_TIMEOUT)
                   (received_aircraft st))))
          (received_aircraft st)"
  by (simp add: serve_aircraft_json_def Let_def fold_delete_filter)

lemma received_entry_hex:
  "e \<in> set (received_entry current_time (k, ac)) \<Longrightarrow>
     e_hex e = rx_icao ac \<and> rx_lat ac \<noteq> None \<and> rx_lon ac \<noteq> None"
  by (cases "rx_lat ac"; cases "rx_lon ac") (simp_all add: received_entry_def)

lemma adsb_entries_serve9:
  "adsb_entries (snd (serve_aircraft_json9 st current_time now)) =
     concat (map (received_entry9 current_time)
       (filter (\<lambda>p. fst p \<notin> set (map fst (filter (\<lambda>(icao, data).
                     current_time - rx9_last_seen data > AIRCRAFT_TIMEOUT9)
                   (received_aircraft9 st))))
          (received_aircraft9 st)))"
proof -
  have sim: "filter (\<lambda>e. e_source e = ''adsb'') (map (simulated_entry9 mc) xs) = []" for mc xs
    by (induction xs) (simp_all add: simulated_entry9_def)
  have rcv: "filter (\<lambda>e. e_source e = ''adsb'') (concat (map (received_entry9 current_time) ys))
               = concat (map (received_entry9 current_time) ys)" for ys
    by (induction ys) (auto simp: received_entry9_def split: option.splits)
  show ?thesis
    by (simp add: adsb_entries_def serve_aircraft_json9_def Let_def sim rcv fold_delete_filter)
qed

lemma received_serve9:
  "received_aircraft9 (fst (serve_aircraft_json9 st current_time now)) =
     filter (\<lambda>p. fst p \<notin> set (map fst (filter (\<lambda>(icao, data).
                     current_time - rx9_last_seen data > AIRCRAFT_TIMEOUT9)
                   (received_aircraft9 st))))
          (received_aircraft9 st)"
  by (simp add: serve_aircraft_json9_def Let_def fold_delete_filter)

lemma received_entry_hex9:
  "e \<in> set (received_entry9 current_time (k, ac)) \<Longrightarrow>
     e_hex e = rx9_icao ac \<and> rx9_lat ac \<noteq> None \<and> rx9_lon ac \<noteq> None"
  by (cases "rx9_lat ac"; cases "rx9_lon ac") (simp_all add: received_entry9_def)

lemma stale_absent:
  assumes wf: "rx_wf (received_aircraft st)"
    and mem: "(k, ac) \<in> set (received_aircraft st)"
    and stale: "current_time - rx_last_seen ac > AIRCRAFT_TIMEOUT"
  shows "k \<notin> fst ` set (received_aircraft (fst (serve_aircraft_json st current_time now)))
       \<and> (\<forall>e \<in> set (adsb_entries (snd (serve_aircraft_json st current_time now))).
             e_hex e \<noteq> k)"
proof -
  let ?stale = "map fst (filter (\<lambda>(icao, data).
                     current_time - rx_last_seen data > AIRCRAFT_TIMEOUT)
                   (received_aircraft st))"
  have k: "k \<in> set ?stale"
    using mem stale by force
  have a: "k \<notin> fst ` set (received_aircraft (fst (serve_aircraft_json st current_time now)))"
  proof
    assume "k \<in> fst ` set (received_aircraft (fst (serve_aircraft_json st current_time now)))"
    then obtain p where "p \<in> set (received_aircraft st)" "fst p \<notin> set ?stale" "fst p = k"
      unfolding received_serve by auto
    with k show False by simp
  qed
  have b: "e_hex e \<noteq> k"
    if e: "e \<in> set (adsb_entries (snd (serve_aircraft_json st current_time now)))" for e
  proof -
    from e obtain k' ac' where p: "(k', ac') \<in> set (received_aircraft st)" "k' \<notin> set ?stale"
      and e': "e \<in> set (received_entry current_time (k', ac'))"
      unfolding adsb_entries_serve by auto
    from wf p(1) have "rx_icao ac' = k'"
      by (auto simp: rx_wf_def list_all_iff)
    with received_entry_hex[OF e'] have "e_hex e = k'" by simp
    with p(2) k show ?thesis by auto
  qed
  from a b show ?thesis by blast
qed

lemma stale_absent9:
  assumes wf: "rx_wf9 (received_aircraft9 st)"
    and mem: "(k, ac) \<in> set (received_aircraft9 st)"
    and stale: "current_time - rx9_last_seen ac > AIRCRAFT_TIMEOUT9"
  shows "k \<notin> fst ` set (received_aircraft9 (fst (serve_aircraft_json9 st current_time now)))
       \<and> (\<forall>e \<in> set (adsb_entries (snd (serve_aircraft_json9 st current_time now))).
             e_hex e \<noteq> k)"
proof -
  let ?stale = "map fst (filter (\<lambda>(icao, data).
                     current_time - rx9_last_seen data > AIRCRAFT_TIMEOUT9)
                   (received_aircraft9 st))"
  have k: "k \<in> set ?stale"
    using mem stale by force
  have a: "k \<notin> fst ` set (received_aircraft9 (fst (serve_aircraft_json9 st current_time now)))"
  proof
    assume "k \<in> fst ` set (received_aircraft9 (fst (serve_aircraft_json9 st current_time now)))"
    then obtain p where "p \<in> set (received_aircraft9 st)" "fst p \<notin> set ?stale" "fst p = k"
      unfolding received_serve9 by auto
    with k show False by simp
  qed
  have b: "e_hex e \<noteq> k"
    if e: "e \<in> set (adsb_entries (snd (serve_aircraft_json9 st current_time now)))" for e
  proof -
    from e obtain k' ac' where p: "(k', ac') \<in> set (received_aircraft9 st)" "k' \<notin> set ?stale"
      and e': "e \<in> set (received_entry9 current_time (k', ac'))"
      unfolding adsb_entries_serve9 by auto
    from wf p(1) have "rx9_icao ac' = k'"
      by (auto simp: rx_wf9_def list_all_iff)
    with received_entry_hex9[OF e'] have "e_hex e = k'" by simp
    with p(2) k show ?thesis by auto
  qed
  from a b show ?thesis by blast
qed

lemma unlocated_absent:
  assumes wf: "rx_wf (received_aircraft st)"
    and mem: "(k, ac) \<in> set (received_aircraft st)"
    and unk: "rx_lat ac = None \<or> rx_lon ac = None"
  shows "\<forall>e \<in> set (adsb_entries (snd (serve_aircraft_json st current_time now))). e_hex e \<noteq> k"
proof
  fix e
  assume "e \<in> set (adsb_entries (snd (serve_aircraft_json st current_time now)))"
  then obtain k' ac' where p: "(k', ac') \<in> set (received_aircraft st)"
    and e': "e \<in> set (received_entry current_time (k', ac'))"
    unfolding adsb_entries_serve by auto
  from wf p have icao: "rx_icao ac' = k'"
    by (auto simp: rx_wf_def list_all_iff)
  show "e_hex e \<noteq> k"
  proof
    assume "e_hex e = k"
    with received_entry_hex[OF e'] icao have "k' = k" by simp
    with wf p mem have "ac' = ac"
      by (auto simp: rx_wf_def dest: eq_key_imp_eq_value)
    with received_entry_hex[OF e'] unk show False by auto
  qed
qed

lemma unlocated_absent9:
  assumes wf: "rx_wf9 (received_aircraft9 st)"
    and mem: "(k, ac) \<in> set (received_aircraft9 st)"
    and unk: "rx9_lat ac = None \<or> rx9_lon ac = None"
  shows "\<forall>e \<in> set (adsb_entries (snd (serve_aircraft_json9 st current_time now))). e_hex e \<noteq> k"
proof
  fix e
  assume "e \<in> set (adsb_entries (snd (serve_aircraft_json9 st current_time now)))"
  then obtain k' ac' where p: "(k', ac') \<in> set (received_aircraft9 st)"
    and e': "e \<in> set (received_entry9 current_time (k', ac'))"
    unfolding adsb_entries_serve9 by auto
  from wf p have icao: "rx9_icao ac' = k'"
    by (auto simp: rx_wf9_def list_all_iff)
  show "e_hex e \<noteq> k"
  proof
    assume "e_hex e = k"
    with received_entry_hex9[OF e'] icao have "k' = k" by simp
    with wf p mem have "ac' = ac"
      by (auto simp: rx_wf9_def dest: eq_key_imp_eq_value)
    with received_entry_hex9[OF e'] unk show False by auto
  qed
qed

text \<open>
  Claim C8 (staleness). For a snapshot request at time \<open>current_time\<close>, a received
  aircraft whose \<^verbatim>\<open>last_seen\<close> satisfies \<open>current_time - last_seen > AIRCRAFT_TIMEOUT\<close>
  (60 s in \<^verbatim>\<open>atc_army_offline.py\<close>, 30 s in \<^verbatim>\<open>atc_debian9.py\<close>) is deleted from the
  received-aircraft dict before the array is built, and no element of the array that
  stands for a received aircraft carries its ICAO address.
\<close>

theorem C8_stale_aircraft_absent_from_snapshot:
  assumes "rx_wf (received_aircraft st)"
    and "(k, ac) \<in> set (received_aircraft st)"
    and "current_time - rx_last_seen ac > AIRCRAFT_TIMEOUT"
    and "rx_wf9 (received_aircraft9 st9)"
    and "(k9, ac9) \<in> set (received_aircraft9 st9)"
    and "current_time9 - rx9_last_seen ac9 > AIRCRAFT_TIMEOUT9"
  shows "(k \<notin> fst ` set (received_aircraft (fst (serve_aircraft_json st current_time now)))
          \<and> (\<forall>e \<in> set (adsb_entries (snd (serve_aircraft_json st current_time now))).
                e_hex e \<noteq> k))
       \<and> (k9 \<notin> fst ` set (received_aircraft9 (fst (serve_aircraft_json9 st9 current_time9 now9)))
          \<and> (\<forall>e \<in> set (adsb_entries (snd (serve_aircraft_json9 st9 current_time9 now9))).
                e_hex e \<noteq> k9))"
  using stale_absent[OF assms(1,2,3)] stale_absent9[OF assms(4,5,6)] by blast

theorem C8_stale_aircraft_absent_from_snapshot_witness:
  "rx_wf (received_aircraft (ex_tracker (Some 1) 0))
   \<and> (''AAA111'', ex_rx (Some 1) 0) \<in> set (received_aircraft (ex_tracker (Some 1) 0))
   \<and> 61 - rx_last_seen (ex_rx (Some 1) 0) > AIRCRAFT_TIMEOUT
   \<and> rx_wf9 (received_aircraft9 (ex_tracker9 (Some 1) 0))
   \<and> (''AAA111'', ex_rx9 (Some 1) 0) \<in> set (received_aircraft9 (ex_tracker9 (Some 1) 0))
   \<and> 31 - rx9_last_seen (ex_rx9 (Some 1) 0) > AIRCRAFT_TIMEOUT9
   \<and> ''AAA111'' \<notin> fst ` set (received_aircraft
          (fst (serve_aircraft_json (ex_tracker (Some 1) 0) 61 61)))
   \<and> ''AAA111'' \<notin> e_hex ` set (adsb_entries (snd (serve_aircraft_json (ex_tracker (Some 1) 0) 61 61)))
   \<and> ''AAA111'' \<notin> fst ` set (received_aircraft9
          (fst (serve_aircraft_json9 (ex_tracker9 (Some 1) 0) 31 31)))
   \<and> ''AAA111'' \<notin> e_hex ` set (adsb_entries (snd (serve_aircraft_json9 (ex_tracker9 (Some 1) 0) 31 31)))"
proof -
  have h1: "rx_wf (received_aircraft (ex_tracker (Some 1) 0))"
    by (simp add: rx_wf_def ex_tracker_def ex_rx_def)
  have h2: "(''AAA111'', ex_rx (Some 1) 0) \<in> set (received_aircraft (ex_tracker (Some 1) 0))"
    by (simp add: ex_tracker_def)
  have h3: "61 - rx_last_seen (ex_rx (Some 1) 0) > AIRCRAFT_TIMEOUT"
    by (simp add: ex_rx_def AIRCRAFT_TIMEOUT_def)
  have h4: "rx_wf9 (received_aircraft9 (ex_tracker9 (Some 1) 0))"
    by (simp add: rx_wf9_def ex_tracker9_def ex_rx9_def)
  have h5: "(''AAA111'', ex_rx9 (Some 1) 0) \<in> set (received_aircraft9 (ex_tracker9 (Some 1) 0))"
    by (simp add: ex_tracker9_def)
  have h6: "31 - rx9_last_seen (ex_rx9 (Some 1) 0) > AIRCRAFT_TIMEOUT9"
    by (simp add: ex_rx9_def AIRCRAFT_TIMEOUT9_def)
  note c = C8_stale_aircraft_absent_from_snapshot[OF h1 h2 h3 h4 h5 h6, of 61 31]
  note c1 = c[THEN conjunct1] and c2 = c[THEN conjunct2]
  show ?thesis
    using h1 h2 h3 h4 h5 h6 c1[THEN conjunct1] c1[THEN conjunct2, THEN ball_neq_image]
      c2[THEN conjunct1] c2[THEN conjunct2, THEN ball_neq_image]
    by (intro conjI)
qed

text \<open>
  Claim C10 (unknown position). In every snapshot, a received aircraft whose \<^verbatim>\<open>lat\<close> or
  \<^verbatim>\<open>lon\<close> is still \<^verbatim>\<open>None\<close> contributes no element to the array, whatever its callsign,
  altitude, speed, heading and age are: no element that stands for a received aircraft
  carries its ICAO address. (Every element that is emitted has a \<open>lat\<close> and a \<open>lon\<close> by
  the type of \<^typ>\<open>entry\<close>.)
\<close>

theorem C10_unlocated_aircraft_omitted:
  assumes "rx_wf (received_aircraft st)"
    and "(k, ac) \<in> set (received_aircraft st)"
    and "rx_lat ac = None \<or> rx_lon ac = None"
    and "rx_wf9 (received_aircraft9 st9)"
    and "(k9, ac9) \<in> set (received_aircraft9 st9)"
    and "rx9_lat ac9 = None \<or> rx9_lon ac9 = None"
  shows "(\<forall>e \<in> set (adsb_entries (snd (serve_aircraft_json st current_time now))).
            e_hex e \<noteq> k)
       \<and> (\<forall>e \<in> set (adsb_entries (snd (serve_aircraft_json9 st9 current_time9 now9))).
            e_hex e \<noteq> k9)"
  using unlocated_absent[OF assms(1,2,3)] unlocated_absent9[OF assms(4,5,6)] by blast

theorem C10_unlocated_aircraft_omitted_witness:
  "rx_wf (received_aircraft (ex_tracker None 0))
   \<and> (''AAA111'', ex_rx None 0) \<in> set (received_aircraft (ex_tracker None 0))
   \<and> (rx_lat (ex_rx None 0) = None \<or> rx_lon (ex_rx None 0) = None)
   \<and> rx_wf9 (received_aircraft9 (ex_tracker9 None 0))
   \<and> (''AAA111'', ex_rx9 None 0) \<in> set (received_aircraft9 (ex_tracker9 None 0))
   \<and> (rx9_lat (ex_rx9 None 0) = None \<or> rx9_lon (ex_rx9 None 0) = None)
   \<and> ''AAA111'' \<notin> e_hex ` set (adsb_entries (snd (serve_aircraft_json (ex_tracker None 0) 1 1)))
   \<and> ''AAA111'' \<notin> e_hex ` set (adsb_entries (snd (serve_aircraft_json9 (ex_tracker9 None 0) 1 1)))"
proof -
  have h1: "rx_wf (received_aircraft (ex_tracker None 0))"
    by (simp add: rx_wf_def ex_tracker_def ex_rx_def)
  have h2: "(''AAA111'', ex_rx None 0) \<in> set (received_aircraft (ex_tracker None 0))"
    by (simp add: ex_tracker_def)
  have h3: "rx_lat (ex_rx None 0) = None \<or> rx_lon (ex_rx None 0) = None"
    by (simp add: ex_rx_def)
  have h4: "rx_wf9 (received_aircraft9 (ex_tracker9 None 0))"
    by (simp add: rx_wf9_def ex_tracker9_def ex_rx9_def)
  have h5: "(''AAA111'', ex_rx9 None 0) \<in> set (received_aircraft9 (ex_tracker9 None 0))"
    by (simp add: ex_tracker9_def)
  have h6: "rx9_lat (ex_rx9 None 0) = None \<or> rx9_lon (ex_rx9 None 0) = None"
    by (simp add: ex_rx9_def)
  note c = C10_unlocated_aircraft_omitted[OF h1 h2 h3 h4 h5 h6, of 1 1 1 1]
  show ?thesis
    using h1 h2 h3 h4 h5 h6 c[THEN conjunct1, THEN ball_neq_image]
      c[THEN conjunct2, THEN ball_neq_image]
    by (intro conjI)
qed


section \<open>Canonical digit strings and the fields of a frame\<close>

lemma canon_simps [simp]:
  "canon b []" "canon b (s @ t) = (canon b s \<and> canon b t)"
  "canon b (c # s) = ((\<exists>d. 0 \<le> d \<and> d < b \<and> c = digit_char d) \<and> canon b s)"
  by (simp_all add: canon_def)

lemma canon_take_drop: "canon b s \<Longrightarrow> canon b (take k s) \<and> canon b (drop k s)"
  unfolding canon_def list_all_iff by (auto dest: in_set_takeD in_set_dropD)

lemma canon_is_digit:
  assumes "canon b s" "b \<le> 16"
  shows "list_all (is_digit (nat b)) s"
  unfolding list_all_iff
proof
  fix c assume "c \<in> set s"
  with assms(1) obtain d where d: "0 \<le> d" "d < b" "c = digit_char d"
    by (auto simp: canon_def list_all_iff)
  with assms(2) have "digit_val c = Some (nat d)"
    by (simp add: digit_val_digit_char)
  with d show "is_digit (nat b) c"
    by (simp add: is_digit_def)
qed

lemma int_digits_canon:
  assumes "2 \<le> b" "0 \<le> n"
  shows "canon b (int_digits b n)"
  using assms
proof (induction b n rule: int_digits.induct)
  case (1 b n)
  show ?case
  proof (cases "n < b")
    case True
    then have "int_digits b n = [digit_char n]"
      by (simp add: int_digits.simps[of b n])
    with True 1(3) show ?thesis by auto
  next
    case False
    with 1 have eq: "int_digits b n = int_digits b (n div b) @ [digit_char (n mod b)]"
      by (simp add: int_digits.simps[of b n])
    have q: "0 \<le> n div b"
      using 1(2,3) by (simp add: pos_imp_zdiv_nonneg_iff)
    from 1(1)[OF _ 1(2) q] False 1(2)
    have "canon b (int_digits b (n div b))" by simp
    moreover have "0 \<le> n mod b" "n mod b < b" using 1(2) by simp_all
    ultimately show ?thesis unfolding eq by auto
  qed
qed

lemma digit_char_0: "digit_char 0 = CHR ''0''"
  by code_simp

lemma canon_zeros: "0 < b \<Longrightarrow> canon b (replicate k CHR ''0'')"
  by (induction k) (auto simp: digit_char_0[symmetric] simp del: digit_char_0)

lemma py_format_canon:
  assumes "2 \<le> b" "0 \<le> n"
  shows "canon b (py_format b w n)"
  unfolding py_format_nonneg[OF assms(2)]
  using int_digits_canon[OF assms] canon_zeros[of b] assms(1) by simp

lemma canon_inj:
  assumes "canon b s" "canon b t" "length s = length t" "b \<le> 16"
    and "digits_value (nat b) s = digits_value (nat b) t"
  shows "s = t"
  using assms
proof (induction s arbitrary: t rule: rev_induct)
  case Nil
  then show ?case by simp
next
  case (snoc c s)
  from snoc.prems(3) obtain t' e where t: "t = t' @ [e]"
    by (cases t rule: rev_cases) auto
  from snoc.prems(1) obtain d where d: "0 \<le> d" "d < b" "c = digit_char d" and cs: "canon b s"
    by auto
  from snoc.prems(2) t obtain d' where d': "0 \<le> d'" "d' < b" "e = digit_char d'" and ct: "canon b t'"
    by auto
  have dv: "digit_val c = Some (nat d)" "digit_val e = Some (nat d')"
    using d d' snoc.prems(4) by (simp_all add: digit_val_digit_char)
  have bpos: "0 < b" using d by simp
  have eq: "digits_value (nat b) s * b + d = digits_value (nat b) t' * b + d'"
    using snoc.prems(5) unfolding t digits_value_append
    using dv d d' bpos by (simp add: digits_value_single)
  have "(digits_value (nat b) s * b + d) mod b = (digits_value (nat b) t' * b + d') mod b"
    using eq by simp
  then have dd: "d = d'" using d d' by simp
  with eq bpos have "digits_value (nat b) s = digits_value (nat b) t'" by simp
  moreover have "length s = length t'" using snoc.prems(3) t by simp
  ultimately have "s = t'"
    using snoc.IH[OF cs ct _ snoc.prems(4)] by simp
  with dd d d' t show ?case by simp
qed

lemma py_format_unique:
  assumes "canon b s" "s \<noteq> []" "2 \<le> b" "b \<le> 16"
  shows "py_format b (length s) (digits_value (nat b) s) = s"
proof -
  let ?v = "digits_value (nat b) s"
  have pure: "list_all (is_digit (nat b)) s" using assms(1,4) by (rule canon_is_digit)
  have v: "0 \<le> ?v" "?v < b ^ length s"
    using digits_value_bound[OF pure] assms(3) by simp_all
  have "length (py_format b (length s) ?v) = length s"
    using assms(2,3) v by (intro py_format_length) simp_all
  moreover have "canon b (py_format b (length s) ?v)"
    using assms(3) v(1) by (rule py_format_canon)
  moreover have "digits_value (nat b) (py_format b (length s) ?v) = ?v"
    using py_format_pure(2)[OF assms(3,4) v(1)] .
  ultimately show ?thesis
    using canon_inj[OF _ assms(1) _ assms(4)] by simp
qed

lemma digits_value_take_drop:
  assumes "list_all (is_digit b) s" "0 < b"
  shows "digits_value b (drop k s) = digits_value b s mod int b ^ (length s - k)"
    and "digits_value b (take k s) = digits_value b s div int b ^ (length s - k)"
proof -
  have pd: "list_all (is_digit b) (drop k s)"
    using assms(1) unfolding list_all_iff by (auto dest: in_set_dropD)
  note bd = digits_value_bound[OF pd]
  have e: "digits_value b s = digits_value b (take k s) * int b ^ (length s - k) + digits_value b (drop k s)"
    using digits_value_append[of b "take k s" "drop k s"] by simp
  have p: "0 < int b ^ (length s - k)" using assms(2) by simp
  show "digits_value b (drop k s) = digits_value b s mod int b ^ (length s - k)"
    unfolding e using bd by (simp add: mod_pos_pos_trivial)
  have "(digits_value b (take k s) * int b ^ (length s - k) + digits_value b (drop k s))
          div int b ^ (length s - k)
        = digits_value b (take k s) + digits_value b (drop k s) div int b ^ (length s - k)"
    using assms(2) by (intro div_mult_self3) simp
  also have "digits_value b (drop k s) div int b ^ (length s - k) = 0"
    using bd by (simp add: div_pos_pos_trivial)
  finally show "digits_value b (take k s) = digits_value b s div int b ^ (length s - k)"
    using e by simp
qed

lemma py_format_drop:
  assumes "2 \<le> b" "b \<le> 16" "0 \<le> n" "n < b ^ w" "k < w"
  shows "drop k (py_format b w n) = py_format b (w - k) (n mod b ^ (w - k))"
proof -
  let ?s = "py_format b w n"
  have l: "length ?s = w" using assms by (intro py_format_length) simp_all
  have c: "canon b ?s" using assms(1,3) by (rule py_format_canon)
  have p: "list_all (is_digit (nat b)) ?s" using c assms(2) by (rule canon_is_digit)
  have v: "digits_value (nat b) ?s = n" using py_format_pure(2)[OF assms(1,2,3)] .
  have cd: "canon b (drop k ?s)" using canon_take_drop[OF c] by simp
  have ne: "drop k ?s \<noteq> []" using l assms(5) by simp
  have "digits_value (nat b) (drop k ?s) = n mod b ^ (w - k)"
    using digits_value_take_drop(1)[OF p, of k] assms(1) unfolding l v by simp
  with py_format_unique[OF cd ne assms(1,2)] l show ?thesis by simp
qed

lemma py_format_take:
  assumes "2 \<le> b" "b \<le> 16" "0 \<le> n" "n < b ^ w" "0 < k" "k \<le> w"
  shows "take k (py_format b w n) = py_format b k (n div b ^ (w - k))"
proof -
  let ?s = "py_format b w n"
  have l: "length ?s = w" using assms by (intro py_format_length) simp_all
  have c: "canon b ?s" using assms(1,3) by (rule py_format_canon)
  have p: "list_all (is_digit (nat b)) ?s" using c assms(2) by (rule canon_is_digit)
  have v: "digits_value (nat b) ?s = n" using py_format_pure(2)[OF assms(1,2,3)] .
  have cd: "canon b (take k ?s)" using canon_take_drop[OF c] by simp
  have ne: "take k ?s \<noteq> []" using l assms(5,6) by auto
  have lt: "length (take k ?s) = k" using l assms(6) by simp
  have "digits_value (nat b) (take k ?s) = n div b ^ (w - k)"
    using digits_value_take_drop(2)[OF p, of k] assms(1) unfolding l v by simp
  with py_format_unique[OF cd ne assms(1,2)] lt show ?thesis by simp
qed

lemma frame_structure:
  assumes c: "canon 2 msg_bin" and l: "length msg_bin = 88" and t: "length T = 6"
  defines "V \<equiv> digits_value 2 msg_bin"
  defines "f \<equiv> py_format 16 22 V @ T"
  shows "length f = 28"
    and "py_int 16 (slice 8 22 f) = Some (digits_value 2 (drop 32 msg_bin))"
    and "py_format 2 56 (digits_value 2 (drop 32 msg_bin)) = drop 32 msg_bin"
    and "py_int 16 (slice 0 2 f) = Some (digits_value 2 (take 8 msg_bin))"
    and "py_int 16 (slice 8 10 f) = Some (digits_value 2 (take 8 (drop 32 msg_bin)))"
    and "slice 2 8 f = py_format 16 6 (digits_value 2 (take 24 (drop 8 msg_bin)))"
proof -
  have p: "list_all (is_digit 2) msg_bin"
    using canon_is_digit[OF c] by simp
  have V: "0 \<le> V" "V < 2 ^ 88" "V < 16 ^ 22"
    using digits_value_bound[OF p] l by (simp_all add: V_def)
  let ?H = "py_format 16 22 V"
  have lH: "length ?H = 22"
    using V by (intro py_format_length) simp_all
  show "length f = 28" by (simp add: f_def lH t)
  have d32: "digits_value 2 (drop 32 msg_bin) = V mod 2 ^ 56"
    using digits_value_take_drop(1)[OF p, of 32] l by (simp add: V_def)
  have t8: "digits_value 2 (take 8 msg_bin) = V div 2 ^ 80"
    using digits_value_take_drop(2)[OF p, of 8] l by (simp add: V_def)
  have pd: "list_all (is_digit 2) (drop 32 msg_bin)" "list_all (is_digit 2) (drop 8 msg_bin)"
    using p unfolding list_all_iff by (auto dest: in_set_dropD)
  have t8d32: "digits_value 2 (take 8 (drop 32 msg_bin)) = (V mod 2 ^ 56) div 2 ^ 48"
    using digits_value_take_drop(2)[OF pd(1), of 8] l d32 by simp
  have d8: "digits_value 2 (drop 8 msg_bin) = V mod 2 ^ 80"
    using digits_value_take_drop(1)[OF p, of 8] l by (simp add: V_def)
  have t24d8: "digits_value 2 (take 24 (drop 8 msg_bin)) = (V mod 2 ^ 80) div 2 ^ 56"
    using digits_value_take_drop(2)[OF pd(2), of 24] l d8 by simp
  have dr8: "drop 8 ?H = py_format 16 14 (V mod 16 ^ 14)"
    using py_format_drop[of 16 V 22 8] V by simp
  have m14: "0 \<le> V mod 16 ^ 14" "V mod 16 ^ 14 < 16 ^ 14"
    by simp_all
  have l14: "length (py_format 16 14 (V mod 16 ^ 14)) = 14"
    by (intro py_format_length) simp_all
  have s1: "slice 8 22 f = py_format 16 14 (V mod 16 ^ 14)"
    unfolding slice_def f_def using lH dr8 l14 by simp
  have fmt: "py_int 16 (py_format 16 w n) = Some n" if "0 \<le> n" for w n
    using py_int_pure[of "py_format 16 w n" 16] py_format_pure[of 16 n w] that by simp
  show "py_int 16 (slice 8 22 f) = Some (digits_value 2 (drop 32 msg_bin))"
    unfolding s1 d32 using fmt[of "V mod 16 ^ 14" 14] by simp
  have cd: "canon 2 (drop 32 msg_bin)" using canon_take_drop[OF c] by simp
  have "drop 32 msg_bin \<noteq> []" using l by auto
  from py_format_unique[OF cd this] l
  show "py_format 2 56 (digits_value 2 (drop 32 msg_bin)) = drop 32 msg_bin" by simp
  have s2: "slice 0 2 f = py_format 16 2 (V div 16 ^ 20)"
    unfolding slice_def f_def using lH py_format_take[of 16 V 22 2] V by simp
  have "0 \<le> V div 16 ^ 20" using V(1) by (simp add: pos_imp_zdiv_nonneg_iff)
  from fmt[OF this, of 2]
  show "py_int 16 (slice 0 2 f) = Some (digits_value 2 (take 8 msg_bin))"
    unfolding s2 t8 by simp
  have s3: "slice 8 10 f = py_format 16 2 ((V mod 16 ^ 14) div 16 ^ 12)"
    unfolding slice_def f_def using lH dr8 l14 py_format_take[of 16 "V mod 16 ^ 14" 14 2] by simp
  have "0 \<le> (V mod 16 ^ 14) div 16 ^ 12" by (simp add: pos_imp_zdiv_nonneg_iff)
  from fmt[OF this, of 2]
  show "py_int 16 (slice 8 10 f) = Some (digits_value 2 (take 8 (drop 32 msg_bin)))"
    unfolding s3 t8d32 by simp
  have dr2: "drop 2 ?H = py_format 16 20 (V mod 16 ^ 20)"
    using py_format_drop[of 16 V 22 2] V by simp
  have "slice 2 8 f = take 6 (drop 2 ?H)"
    unfolding slice_def f_def using lH by simp
  also have "\<dots> = py_format 16 6 ((V mod 16 ^ 20) div 16 ^ 14)"
    unfolding dr2 using py_format_take[of 16 "V mod 16 ^ 20" 20 6] by simp
  finally show "slice 2 8 f = py_format 16 6 (digits_value 2 (take 24 (drop 8 msg_bin)))"
    unfolding t24d8 by simp
qed

lemma valid_icao_int:
  assumes "valid_icao icao"
  shows "py_int 16 icao = Some (digits_value 16 icao)"
    and "0 \<le> digits_value 16 icao" and "digits_value 16 icao < 2 ^ 24"
proof -
  from assms have l: "length icao = 6" and p: "list_all (is_digit 16) icao"
    by (simp_all add: valid_icao_def)
  from l have ne: "icao \<noteq> []" by auto
  show "py_int 16 icao = Some (digits_value 16 icao)"
    using ne p by (rule py_int_pure)
  show "0 \<le> digits_value 16 icao" "digits_value 16 icao < 2 ^ 24"
    using digits_value_bound[OF p] l by simp_all
qed

lemma crc_bounds:
  assumes "crc s e = Some c"
  shows "0 \<le> c \<and> c < 2 ^ 24"
  using assms and_mask24_bounds
  by (auto simp: crc_def Let_def split: option.splits)

lemma crc_gen_bounds:
  assumes "crc_gen s e = Some c"
  shows "0 \<le> c \<and> c < 2 ^ 24"
  using assms and_mask24_bounds
  by (auto simp: crc_gen_def Let_def split: option.splits)

lemma seal_Some:
  assumes c: "canon 2 m" and ne: "m \<noteq> []"
  shows "\<exists>T. length T = 6 \<and> seal w m = Some (py_format 16 w (digits_value 2 m) @ T)"
proof -
  have p: "list_all (is_digit 2) m" using canon_is_digit[OF c] by simp
  have i: "py_int 2 m = Some (digits_value 2 m)" using ne p by (rule py_int_pure)
  let ?v = "digits_value 2 m"
  have v: "0 \<le> ?v" using digits_value_bound[OF p] by simp
  note h = py_format_pure[of 16 ?v w]
  obtain cc where cc: "crc (py_format 16 w ?v) True = Some cc"
    using crc_pure(1)[of "py_format 16 w ?v"] h v by auto
  from crc_bounds[OF cc] have "length (py_format 16 6 cc) = 6"
    by (intro py_format_length) simp_all
  then show ?thesis
    using i cc by (auto simp: seal_def Let_def)
qed

lemma seal_gen_Some:
  assumes c: "canon 2 m" and ne: "m \<noteq> []"
  shows "\<exists>T. length T = 6 \<and> seal_gen w m = Some (py_format 16 w (digits_value 2 m) @ T)"
proof -
  have p: "list_all (is_digit 2) m" using canon_is_digit[OF c] by simp
  have i: "py_int 2 m = Some (digits_value 2 m)" using ne p by (rule py_int_pure)
  let ?v = "digits_value 2 m"
  have v: "0 \<le> ?v" using digits_value_bound[OF p] by simp
  note h = py_format_pure[of 16 ?v w]
  obtain cc where cc: "crc_gen (py_format 16 w ?v) True = Some cc"
    using crc_gen_pure(1)[of "py_format 16 w ?v"] h v by auto
  from crc_gen_bounds[OF cc] have "length (py_format 16 6 cc) = 6"
    by (intro py_format_length) simp_all
  then show ?thesis
    using i cc by (auto simp: seal_gen_def Let_def)
qed

text \<open>A field of width w holding x.\<close>

lemma field:
  assumes "0 \<le> x" "x < 2 ^ w" "0 < w"
  shows "canon 2 (py_format 2 w x)" "length (py_format 2 w x) = w"
    "digits_value 2 (py_format 2 w x) = x" "py_int 2 (py_format 2 w x) = Some x"
proof -
  show c: "canon 2 (py_format 2 w x)" using assms(1) by (intro py_format_canon) simp_all
  note w = assms(3)
  show l: "length (py_format 2 w x) = w" using assms w by (intro py_format_length) simp_all
  show v: "digits_value 2 (py_format 2 w x) = x"
    using py_format_pure(2)[of 2 x w] assms(1) by simp
  have "py_format 2 w x \<noteq> []" using l w by auto
  then show "py_int 2 (py_format 2 w x) = Some x"
    using py_int_pure[of "py_format 2 w x" 2] canon_is_digit[OF c] v by simp
qed

lemma bit_field:
  assumes "x = 0 \<or> x = 1"
  shows "int_at (py_format 2 1 x @ r) 0 = Some x" "py_format 2 1 x = [digit_char x]"
proof -
  have a: "py_format 2 1 0 = ''0''" "py_format 2 1 1 = ''1''" by code_simp+
  have b: "py_int 10 ''0'' = Some 0" "py_int 10 ''1'' = Some 1" by code_simp+
  have d: "digit_char 0 = CHR ''0''" "digit_char 1 = CHR ''1''" by code_simp+
  show "py_format 2 1 x = [digit_char x]" using assms a d by auto
  show "int_at (py_format 2 1 x @ r) 0 = Some x"
    using assms a b by (auto simp: int_at_def char_at_def)
qed

section \<open>Airborne velocity: what the decoder recovers\<close>

lemma py_trunc_abs: "(if 0 \<le> x then py_trunc \<bar>x\<bar> else - py_trunc \<bar>x\<bar>) = py_trunc x"
  by (auto simp: py_trunc_def ceiling_def)



lemma int_at_digit:
  assumes "x = 0 \<or> x = 1" "char_at s i = Some (digit_char x)"
  shows "int_at s i = Some x"
proof -
  have b: "py_int 10 [digit_char 0] = Some 0" "py_int 10 [digit_char 1] = Some 1" by code_simp+
  show ?thesis using assms b by (auto simp: int_at_def)
qed



section \<open>Truncated velocity components\<close>












section \<open>Velocity round-trip\<close>

lemma valid_icao_ex: "valid_icao ''40621D''" by code_simp













section \<open>Airborne position: the altitude field\<close>

lemma icao_int_ex: "py_int 16 ''40621D'' = Some 4219421" by code_simp

lemma nl_equator: "nl 0 = 59" by (simp add: nl_def)

lemma py_trunc_of_int: "py_trunc (of_int n) = n"
  by (simp add: py_trunc_def)

lemma py_trunc_zero: "py_trunc 0 = 0"
  by (simp add: py_trunc_def)

lemma alt_code_10200: "py_trunc (of_int (10200 + 1000) / 25) = 448"
proof -
  have "(of_int (10200 + 1000) / 25 :: real) = of_int 448" by simp
  thus ?thesis by (simp only: py_trunc_of_int)
qed

lemma position_frame_10200:
  "encode_position ''40621D'' 0 0 10200 0 = Some ''8D40621D58388000000000F4C180''"
  unfolding encode_position_def Let_def alt_code_10200
  by (simp add: icao_int_ex nl_equator py_trunc_zero, code_simp)

lemma me_10200:
  "py_int 16 (slice 8 22 ''8D40621D58388000000000F4C180'') = Some 24831920357507072"
  "py_format 2 56 24831920357507072 = ''01011000001110001000000000000000000000000000000000000000''"
  by code_simp+

lemma fields_10200:
  "py_int 2 (slice 8 20 ''01011000001110001000000000000000000000000000000000000000'') = Some 904"
  "int_at ''01011000001110001000000000000000000000000000000000000000'' 20 = Some 0"
  "int_at ''01011000001110001000000000000000000000000000000000000000'' 21 = Some 0"
  "py_int 2 (slice 22 39 ''01011000001110001000000000000000000000000000000000000000'') = Some 0"
  "py_int 2 (slice 39 56 ''01011000001110001000000000000000000000000000000000000000'') = Some 0"
  "drop_bit 4 (904::int) AND 1 = 0"
  by code_simp+

lemma altitude9_10200:
  "snd (snd (snd (decode_position9 ''8D40621D58388000000000F4C180'' ac))) = None"
  unfolding decode_position9_def Let_def me_10200 option.case fields_10200 prod.case
  by (simp split: option.splits)

lemma altitude_10200:
  "snd (snd (snd (decode_position ''8D40621D58388000000000F4C180'' ac t))) = 0"
  unfolding decode_position_def Let_def me_10200 option.case fields_10200 prod.case
  by (simp split: option.splits)

lemma position_frame_gen_10200:
  "encode_position_gen ''40621D'' 0 0 10200 0 = Some ''8D40621D583900000000007A3E0D''"
  unfolding encode_position_gen_def Let_def alt_code_10200
  by (simp add: icao_int_ex py_trunc_zero, code_simp)

lemma me_gen_10200:
  "py_int 16 (slice 8 22 ''8D40621D583900000000007A3E0D'') = Some 24832470113320960"
  "py_format 2 56 24832470113320960 = ''01011000001110010000000000000000000000000000000000000000''"
  by code_simp+

lemma fields_gen_10200:
  "py_int 2 (slice 8 20 ''01011000001110010000000000000000000000000000000000000000'') = Some 912"
  "int_at ''01011000001110010000000000000000000000000000000000000000'' 20 = Some 0"
  "int_at ''01011000001110010000000000000000000000000000000000000000'' 21 = Some 0"
  "py_int 2 (slice 22 39 ''01011000001110010000000000000000000000000000000000000000'') = Some 0"
  "py_int 2 (slice 39 56 ''01011000001110010000000000000000000000000000000000000000'') = Some 0"
  "drop_bit 4 (912::int) AND 1 = 1"
  "push_bit 4 (drop_bit 5 (912::int) AND 0x7F) OR (912 AND 0x0F) = 448"
  by code_simp+

lemma altitude9_gen_10200:
  "snd (snd (snd (decode_position9 ''8D40621D583900000000007A3E0D'' ac))) = Some 10200"
  unfolding decode_position9_def Let_def me_gen_10200 option.case fields_gen_10200 prod.case
  by (simp split: option.splits)

lemma altitude_gen_10200:
  "snd (snd (snd (decode_position ''8D40621D583900000000007A3E0D'' ac t))) = 10200"
  unfolding decode_position_def Let_def me_gen_10200 option.case fields_gen_10200 prod.case
  by (simp split: option.splits)

text \<open>
  The altitude 10200 ft, code 448, through both encoders and both decoders: the frame of
  \<^verbatim>\<open>aircraft_simulator.py\<close> loses its altitude, the frame of \<^verbatim>\<open>send_adsb.py\<close> keeps it.
\<close>

lemma altitude_10200_both_encoders:
  "encode_position ''40621D'' 0 0 10200 0 = Some ''8D40621D58388000000000F4C180'' \<and>
   snd (snd (snd (decode_position9 ''8D40621D58388000000000F4C180'' ac9))) = None \<and>
   snd (snd (snd (decode_position ''8D40621D58388000000000F4C180'' ac t))) = 0 \<and>
   encode_position_gen ''40621D'' 0 0 10200 0 = Some ''8D40621D583900000000007A3E0D'' \<and>
   snd (snd (snd (decode_position9 ''8D40621D583900000000007A3E0D'' ac9))) = Some 10200 \<and>
   snd (snd (snd (decode_position ''8D40621D583900000000007A3E0D'' ac t))) = 10200"
  using position_frame_10200 altitude9_10200 altitude_10200
    position_frame_gen_10200 altitude9_gen_10200 altitude_gen_10200
  by blast

section \<open>Airborne position: the format bit\<close>

lemma lat_cpr_odd_3: "py_trunc ((3 / (360 / 59) - of_int (py_trunc (3 / (360 / 59)))) * 2 ^ 17) AND (2 ^ 17 - 1) = 64443"
proof -
  have a: "py_trunc (3 / (360 / 59)) = 0" by (simp add: py_trunc_def)
  have b: "py_trunc ((3 / (360 / 59) - of_int 0) * 2 ^ 17) = 64443" by (simp add: py_trunc_def)
  show ?thesis unfolding a b by code_simp
qed

lemma alt_code_38000: "py_trunc (of_int (38000 + 1000) / 25) = 1560"
proof -
  have "(of_int (38000 + 1000) / 25 :: real) = of_int 1560" by simp
  thus ?thesis by (simp only: py_trunc_of_int)
qed

lemma position_frame_odd:
  "encode_position ''40621D'' 3 0 38000 1 = Some ''8D40621D58C385F7760000B9CC80''"
  unfolding encode_position_def Let_def alt_code_38000
  by (simp add: icao_int_ex py_trunc_def, code_simp)

lemma me_odd:
  "py_int 16 (slice 8 22 ''8D40621D58C385F7760000B9CC80'') = Some 24984778100310016"
  "py_format 2 56 24984778100310016 = ''01011000110000111000010111110111011101100000000000000000''"
  by code_simp+

lemma fields_odd:
  "py_int 2 (slice 8 20 ''01011000110000111000010111110111011101100000000000000000'') = Some 3128"
  "int_at ''01011000110000111000010111110111011101100000000000000000'' 20 = Some 0"
  "int_at ''01011000110000111000010111110111011101100000000000000000'' 21 = Some 1"
  "py_int 2 (slice 22 39 ''01011000110000111000010111110111011101100000000000000000'') = Some 64443"
  "py_int 2 (slice 39 56 ''01011000110000111000010111110111011101100000000000000000'') = Some 0"
  by code_simp+

lemma stored9_odd:
  "fst (decode_position9 ''8D40621D58C385F7760000B9CC80'' ac)
     = ac\<lparr>rx9_lat_even_cpr := Some 64443, rx9_lon_even_cpr := Some 0\<rparr>"
  unfolding decode_position9_def Let_def me_odd option.case fields_odd prod.case
  by (simp split: option.splits)

lemma stored_odd:
  "fst (decode_position ''8D40621D58C385F7760000B9CC80'' ac t)
     = ac\<lparr>rx_position_odd := Some (64443, 0, t)\<rparr>"
  unfolding decode_position_def Let_def me_odd option.case fields_odd prod.case
  by (simp split: option.splits)

text \<open>An odd frame, for latitude 3 and longitude 0, through both decoders.\<close>

lemma odd_frame_both_receivers:
  "encode_position ''40621D'' 3 0 38000 1 = Some ''8D40621D58C385F7760000B9CC80'' \<and>
   fst (decode_position9 ''8D40621D58C385F7760000B9CC80'' ac9)
     = ac9\<lparr>rx9_lat_even_cpr := Some 64443, rx9_lon_even_cpr := Some 0\<rparr> \<and>
   fst (decode_position ''8D40621D58C385F7760000B9CC80'' ac t)
     = ac\<lparr>rx_position_odd := Some (64443, 0, t)\<rparr>"
  using position_frame_odd stored9_odd stored_odd by blast

section \<open>Pairs of CPR fragments\<close>

















section \<open>Malformed frames\<close>











section \<open>Beast transport\<close>

lemma icao_int_esc: "py_int 16 ''1A2B3C'' = Some 1715004" by code_simp

lemma position_frame_esc:
  "encode_position ''1A2B3C'' 0 0 38000 0 = Some ''8D1A2B3C58C380000000007AA480''"
  unfolding encode_position_def Let_def alt_code_38000
  by (simp add: icao_int_esc nl_equator py_trunc_zero, code_simp)

lemma beast_esc:
  "encode_message ''8D1A2B3C58C380000000007AA480'' 0 200
     = Some [0x1A, 0x33, 0, 0, 0, 0, 0, 0, 200,
             0x8D, 0x1A, 0x1A, 0x2B, 0x3C, 0x58, 0xC3, 0x80, 0, 0, 0, 0, 0x7A, 0xA4, 0x80]"
  by code_simp

lemma parsed_esc:
  "extract_messages [] [0x1A, 0x33, 0, 0, 0, 0, 0, 0, 200,
             0x8D, 0x1A, 0x1A, 0x2B, 0x3C, 0x58, 0xC3, 0x80, 0, 0, 0, 0, 0x7A, 0xA4, 0x80]
     = ([''8D1A1A2B3C58C380000000007AA4''], [0x80])"
  by code_simp

text \<open>
  Claim C4 (Beast escape round-trip) does not hold of \<^verbatim>\<open>atc_army_offline.py\<close>. The
  encoder doubles every \<^verbatim>\<open>0x1A\<close> after the first byte; the parser takes
  \<^verbatim>\<open>buffer[9:23]\<close> of the escaped stream and never removes a doubled byte. The position
  frame of the aircraft \<^verbatim>\<open>1A2B3C\<close> comes back with the address \<^verbatim>\<open>1A1A2B\<close>, shifted by
  one byte, and its last byte is left in the buffer.
\<close>

theorem C4_beast_escape_not_undone:
  "encode_position ''1A2B3C'' 0 0 38000 0 = Some ''8D1A2B3C58C380000000007AA480'' \<and>
   encode_message ''8D1A2B3C58C380000000007AA480'' 0 200
     = Some [0x1A, 0x33, 0, 0, 0, 0, 0, 0, 200,
             0x8D, 0x1A, 0x1A, 0x2B, 0x3C, 0x58, 0xC3, 0x80, 0, 0, 0, 0, 0x7A, 0xA4, 0x80] \<and>
   extract_messages [] [0x1A, 0x33, 0, 0, 0, 0, 0, 0, 200,
             0x8D, 0x1A, 0x1A, 0x2B, 0x3C, 0x58, 0xC3, 0x80, 0, 0, 0, 0, 0x7A, 0xA4, 0x80]
     = ([''8D1A1A2B3C58C380000000007AA4''], [0x80]) \<and>
   ''8D1A1A2B3C58C380000000007AA4'' \<noteq> ''8D1A2B3C58C380000000007AA480''"
  using position_frame_esc beast_esc parsed_esc by simp

section \<open>The number of longitude zones in exact arithmetic\<close>

text \<open>
  With real numbers in the place of floats, \<open>arccos (cos (pi / 30))\<close> is \<open>pi / 30\<close> and
  the quotient at the equator is exactly 60, for \<^verbatim>\<open>_calculate_nl\<close> of both receivers and for
  \<^verbatim>\<open>nl\<close> of \<^verbatim>\<open>send_adsb.py\<close>. The 59 that Python returns there comes from the rounding
  of \<^verbatim>\<open>math.cos\<close> and \<^verbatim>\<open>math.acos\<close>, which leaves the quotient just below 60; these
  definitions do not describe it. \<^verbatim>\<open>nl\<close> of \<^verbatim>\<open>aircraft_simulator.py\<close> returns 59 at 0
  by a test of its own.
\<close>

lemma calculate_nl_equator_exact: "calculate_nl 0 = 60"
proof -
  have p: "0 < pi / 30" "pi / 30 < pi / 2" by simp_all
  have c: "0 < cos (pi / 30)" using p by (intro cos_gt_zero) simp_all
  have a: "arccos (cos (pi / 30)) = pi / 30" by (rule arccos_cos) simp_all
  have t: "py_trunc 60 = 60" by (simp add: py_trunc_def)
  show ?thesis
    unfolding calculate_nl_def Let_def using c by (simp add: a t)
qed

lemma nl_gen_equator_exact: "nl_gen 0 = 60"
proof -
  have c: "0 < cos (pi / 30)" by (intro cos_gt_zero) simp_all
  have a: "arccos (cos (pi / 30)) = pi / 30" by (rule arccos_cos) simp_all
  have t: "py_trunc 60 = 60" by (simp add: py_trunc_def)
  show ?thesis
    unfolding nl_gen_def Let_def using c by (simp add: a t)
qed

lemma calculate_nl_polar: "87 \<le> \<bar>lat\<bar> \<Longrightarrow> calculate_nl lat = 1"
  by (simp add: calculate_nl_def)

section \<open>Airborne position: every frame of the encoder\<close>

lemma or_low_bits:
  fixes t r :: int
  assumes "0 \<le> r" "r < 2 ^ k"
  shows "push_bit k t OR r = t * 2 ^ k + r"
proof -
  have "push_bit k t + r = push_bit k t OR r"
  proof (rule disjunctive_add)
    fix n
    show "\<not> bit (push_bit k t) n \<or> \<not> bit r n"
    proof (cases "n < k")
      case True
      thus ?thesis by (simp add: bit_push_bit_iff)
    next
      case False
      hence "k \<le> n" by simp
      hence "(2::int) ^ k \<le> 2 ^ n" by (intro power_increasing) simp_all
      hence "r < 2 ^ n" using assms(2) by linarith
      hence "\<not> bit r n" using assms(1) by (simp add: bit_iff_odd)
      thus ?thesis by simp
    qed
  qed
  thus ?thesis by (simp add: push_bit_eq_mult)
qed

lemma masks: "(1::int) = mask 1" "(0x7F::int) = mask 7" "(0x0F::int) = mask 4"
  "(2 ^ 17 - 1 :: int) = mask 17"
  by (simp_all add: mask_eq_exp_minus_1)

lemma altitude_decode:
  fixes N :: int
  assumes N: "0 \<le> N" "N < 2048"
  defines "E \<equiv> (N div 8) * 16 + (8 + N mod 8)"
  shows "drop_bit 4 E AND 1 = (N div 8) mod 2"
    and "push_bit 4 (drop_bit 5 E AND 0x7F) OR (E AND 0x0F) = (N div 16) * 16 + (8 + N mod 8)"
proof -
  have r: "0 \<le> 8 + N mod 8" "8 + N mod 8 < 16" by simp_all
  have d16: "E div 16 = N div 8" unfolding E_def using r by simp
  have m16: "E mod 16 = 8 + N mod 8" unfolding E_def using r by simp
  have "E div 32 = (E div 16) div 2" by (simp add: zdiv_zmult2_eq)
  also have "\<dots> = N div 16" unfolding d16 by (simp add: zdiv_zmult2_eq)
  finally have d32: "E div 32 = N div 16" .
  have t: "0 \<le> N div 16" "N div 16 < 128" using N by simp_all
  show "drop_bit 4 E AND 1 = (N div 8) mod 2"
    unfolding masks(1) take_bit_eq_mask[symmetric] take_bit_eq_mod drop_bit_eq_div
    using d16 by simp
  have top: "drop_bit 5 E AND 0x7F = N div 16"
    unfolding masks(2) take_bit_eq_mask[symmetric] take_bit_eq_mod drop_bit_eq_div
    using d32 t by simp
  have bot: "E AND 0x0F = 8 + N mod 8"
    unfolding masks(3) take_bit_eq_mask[symmetric] take_bit_eq_mod
    using m16 by simp
  show "push_bit 4 (drop_bit 5 E AND 0x7F) OR (E AND 0x0F) = (N div 16) * 16 + (8 + N mod 8)"
    unfolding top bot using or_low_bits[of "8 + N mod 8" 4 "N div 16"] r by simp
qed

lemma altitude_decode_set:
  fixes N :: int
  assumes "(N div 8) mod 2 = 1"
  shows "(N div 16) * 16 + (8 + N mod 8) = N"
proof -
  have "N div 8 = (N div 8) div 2 * 2 + (N div 8) mod 2" by simp
  also have "(N div 8) div 2 = N div 16" by (simp add: zdiv_zmult2_eq)
  finally have a: "N div 8 = N div 16 * 2 + 1" using assms by simp
  have "N = (N div 8) * 8 + N mod 8" by simp
  thus ?thesis unfolding a by simp
qed

lemma canon_py_int:
  assumes "canon 2 s" "s \<noteq> []"
  shows "py_int 2 s = Some (digits_value 2 s)"
proof -
  have "list_all (is_digit (nat 2)) s" using assms(1) by (rule canon_is_digit) simp
  hence "list_all (is_digit 2) s" by simp
  with assms(2) show ?thesis by (rule py_int_pure)
qed

lemma altitude_field:
  fixes N :: int
  assumes N: "0 \<le> N" "N < 2048"
  defines "ab \<equiv> py_format 2 11 N"
  defines "alt_encoded \<equiv> slice 0 8 ab @ ''1'' @ slice 8 11 ab"
  shows "canon 2 alt_encoded" "length alt_encoded = 12"
    "py_int 2 alt_encoded = Some ((N div 8) * 16 + (8 + N mod 8))"
proof -
  have N2: "N < 2 ^ 11" using N(2) by simp
  note f = field[OF N(1) N2 zero_less_numeral]
  have tk: "take 8 ab = py_format 2 8 (N div 8)"
    unfolding ab_def using py_format_take[of 2 N 11 8] N by simp
  have dr: "drop 8 ab = py_format 2 3 (N mod 8)"
    unfolding ab_def using py_format_drop[of 2 N 11 8] N by simp
  have hi: "0 \<le> N div 8" "N div 8 < 2 ^ 8" using N by simp_all
  have lo: "0 \<le> N mod 8" "N mod 8 < 2 ^ 3" by simp_all
  note fh = field[OF hi zero_less_numeral] and fl = field[OF lo zero_less_numeral]
  have s1: "slice 0 8 ab = py_format 2 8 (N div 8)" using tk by (simp add: slice_def)
  have s2: "slice 8 11 ab = py_format 2 3 (N mod 8)"
    using dr fl(2) by (simp add: slice_def)
  have one: "''1'' = py_format 2 1 1" by code_simp
  have o: "(0::int) \<le> 1" "(1::int) < 2 ^ 1" by simp_all
  note fo = field[OF o zero_less_one]
  have e: "alt_encoded = py_format 2 8 (N div 8) @ py_format 2 1 1 @ py_format 2 3 (N mod 8)"
    unfolding alt_encoded_def s1 s2 one ..
  show c: "canon 2 alt_encoded" unfolding e canon_simps(2) using fh(1) fo(1) fl(1) by blast
  show l: "length alt_encoded = 12" unfolding e length_append fh(2) fo(2) fl(2) by simp
  have ne: "alt_encoded \<noteq> []" using l by auto
  have "digits_value 2 alt_encoded = (N div 8) * 16 + (8 + N mod 8)"
    unfolding e digits_value_append fh(3) fo(3) fl(3) length_append fo(2) fl(2) by simp
  thus "py_int 2 alt_encoded = Some ((N div 8) * 16 + (8 + N mod 8))"
    using canon_py_int[OF c ne] by simp
qed

lemma position_slices:
  assumes "length a = 5" "length b = 2" "length c = 1" "length alt = 12" "length z = 1"
    "length lat = 17" "length lon = 17"
  shows "slice 0 5 (a @ b @ c @ alt @ z @ [fb] @ lat @ lon) = a"
    and "slice 8 20 (a @ b @ c @ alt @ z @ [fb] @ lat @ lon) = alt"
    and "char_at (a @ b @ c @ alt @ z @ [fb] @ lat @ lon) 20 = Some (hd z)"
    and "char_at (a @ b @ c @ alt @ z @ [fb] @ lat @ lon) 21 = Some fb"
    and "slice 22 39 (a @ b @ c @ alt @ z @ [fb] @ lat @ lon) = lat"
    and "slice 39 56 (a @ b @ c @ alt @ z @ [fb] @ lat @ lon) = lon"
proof -
  obtain z0 where z: "z = [z0]" using assms(5) by (cases z) auto
  show "slice 0 5 (a @ b @ c @ alt @ z @ [fb] @ lat @ lon) = a"
    and "slice 8 20 (a @ b @ c @ alt @ z @ [fb] @ lat @ lon) = alt"
    and "char_at (a @ b @ c @ alt @ z @ [fb] @ lat @ lon) 20 = Some (hd z)"
    and "char_at (a @ b @ c @ alt @ z @ [fb] @ lat @ lon) 21 = Some fb"
    and "slice 22 39 (a @ b @ c @ alt @ z @ [fb] @ lat @ lon) = lat"
    and "slice 39 56 (a @ b @ c @ alt @ z @ [fb] @ lat @ lon) = lon"
    using assms unfolding z by (simp_all add: slice_def char_at_def nth_append)
qed

lemma and_mask17_bounds: "0 \<le> (x::int) AND (2 ^ 17 - 1)" "(x::int) AND (2 ^ 17 - 1) < 2 ^ 17"
proof -
  show "0 \<le> x AND (2 ^ 17 - 1)" unfolding masks(4) by (simp add: take_bit_eq_mask[symmetric])
  show "x AND (2 ^ 17 - 1) < 2 ^ 17"
    unfolding masks(4) take_bit_eq_mask[symmetric] by (rule take_bit_int_less_exp)
qed

lemma encode_position_payload:
  fixes lat lon :: real and alt time_bit N :: int
  assumes icao: "valid_icao icao" and tb: "time_bit = 0 \<or> time_bit = 1"
    and N: "0 \<le> N" "N < 2048" and alt: "py_trunc (of_int (alt + 1000) / 25) = N"
  shows "\<exists>f me_bin lat_cpr lon_cpr.
           encode_position icao lat lon alt time_bit = Some f \<and> length f = 28 \<and>
           py_int 16 (slice 8 22 f) = Some (digits_value 2 me_bin) \<and>
           py_format 2 56 (digits_value 2 me_bin) = me_bin \<and>
           py_int 2 (slice 0 5 me_bin) = Some 11 \<and>
           py_int 2 (slice 8 20 me_bin) = Some ((N div 8) * 16 + (8 + N mod 8)) \<and>
           int_at me_bin 20 = Some 0 \<and> int_at me_bin 21 = Some time_bit \<and>
           py_int 2 (slice 22 39 me_bin) = Some lat_cpr \<and>
           py_int 2 (slice 39 56 me_bin) = Some lon_cpr"
proof -
  note I = valid_icao_int[OF icao]
  let ?I = "digits_value 16 icao"
  define lat_cpr where "lat_cpr =
     py_trunc ((lat / (360 / (if time_bit = 0 then 60 else 59))
                - of_int (py_trunc (lat / (360 / (if time_bit = 0 then 60 else 59))))) * 2 ^ 17)
       AND (2 ^ 17 - 1)"
  define lon_cpr where "lon_cpr =
     py_trunc ((lon / (360 / of_int (max (if time_bit = 0 then nl (lat * pi / 180)
                                          else nl (lat * pi / 180) - 1) 1))
                - of_int (py_trunc (lon / (360 / of_int (max (if time_bit = 0 then nl (lat * pi / 180)
                                          else nl (lat * pi / 180) - 1) 1))))) * 2 ^ 17)
       AND (2 ^ 17 - 1)"
  have la: "0 \<le> lat_cpr" "lat_cpr < 2 ^ 17" unfolding lat_cpr_def by (rule and_mask17_bounds)+
  have lo: "0 \<le> lon_cpr" "lon_cpr < 2 ^ 17" unfolding lon_cpr_def by (rule and_mask17_bounds)+
  have bb: "0 \<le> time_bit" "time_bit < 2 ^ 1" using tb by auto
  have k: "(0::int) \<le> 17" "(17::int) < 2 ^ 5" "(0::int) \<le> 5" "(5::int) < 2 ^ 3"
    "(0::int) \<le> 11" "(11::int) < 2 ^ 5" "(0::int) \<le> 0" "(0::int) < 2 ^ 2" "(0::int) < 2 ^ 1"
    by simp_all
  note f17 = field[OF k(1) k(2) zero_less_numeral] and f5 = field[OF k(3) k(4) zero_less_numeral]
    and fI = field[OF I(2) I(3) zero_less_numeral]
    and f11 = field[OF k(5) k(6) zero_less_numeral]
    and f02 = field[OF k(7) k(8) zero_less_numeral] and f01 = field[OF k(7) k(9) zero_less_one]
    and ftb = field[OF bb zero_less_one]
    and fla = field[OF la zero_less_numeral] and flo = field[OF lo zero_less_numeral]
  note af = altitude_field[OF N]
  define alt_encoded where
    "alt_encoded = slice 0 8 (py_format 2 11 N) @ ''1'' @ slice 8 11 (py_format 2 11 N)"
  note af' = af[folded alt_encoded_def]
  have one: "py_format 2 1 time_bit = [digit_char time_bit]" by (rule bit_field(2)[OF tb])
  define A where "A = py_format 2 5 17 @ py_format 2 3 5 @ py_format 2 24 ?I"
  define ME where "ME = py_format 2 5 11 @ py_format 2 2 0 @ py_format 2 1 0
                    @ alt_encoded @ py_format 2 1 0 @ [digit_char time_bit]
                    @ py_format 2 17 lat_cpr @ py_format 2 17 lon_cpr"
  define msg_bin where "msg_bin = A @ ME"
  have lA: "length A = 32" "canon 2 A"
    unfolding A_def using f17(1,2) f5(1,2) fI(1,2)
    by (simp_all del: canon_simps(3) add: canon_simps(2))
  have lME: "length ME = 56" "canon 2 ME"
    unfolding ME_def one[symmetric]
    using f11(1,2) f02(1,2) f01(1,2) af'(1,2) ftb(1,2) fla(1,2) flo(1,2)
    by (simp_all del: canon_simps(3) add: canon_simps(2))
  have lm: "length msg_bin = 88" "canon 2 msg_bin" "msg_bin \<noteq> []"
    using lA lME by (auto simp: msg_bin_def)
  have enc: "encode_position icao lat lon alt time_bit = seal 22 msg_bin"
  proof -
    have e: "py_format 2 5 17 @ py_format 2 3 5 @ py_format 2 24 ?I
                    @ py_format 2 5 11 @ py_format 2 2 0 @ py_format 2 1 0
                    @ alt_encoded @ py_format 2 1 0 @ py_format 2 1 time_bit
                    @ py_format 2 17 lat_cpr @ py_format 2 17 lon_cpr = msg_bin"
      unfolding msg_bin_def A_def ME_def one[symmetric] by simp
    have "encode_position icao lat lon alt time_bit =
            (let msg_bin = py_format 2 5 17 @ py_format 2 3 5 @ py_format 2 24 ?I
                    @ py_format 2 5 11 @ py_format 2 2 0 @ py_format 2 1 0
                    @ alt_encoded @ py_format 2 1 0 @ py_format 2 1 time_bit
                    @ py_format 2 17 lat_cpr @ py_format 2 17 lon_cpr
             in if length msg_bin \<noteq> 88 then None else seal 22 msg_bin)"
      unfolding encode_position_def Let_def I(1) option.case alt
        alt_encoded_def[symmetric] lat_cpr_def[symmetric] lon_cpr_def[symmetric] ..
    thus ?thesis unfolding e Let_def using lm(1) by simp
  qed
  from seal_Some[OF lm(2,3), of 22]
  obtain T where T: "length T = 6"
    and s: "seal 22 msg_bin = Some (py_format 16 22 (digits_value 2 msg_bin) @ T)" by blast
  let ?f = "py_format 16 22 (digits_value 2 msg_bin) @ T"
  note fs = frame_structure[OF lm(2) lm(1) T]
  have d32: "drop 32 msg_bin = ME" using lA by (simp add: msg_bin_def)
  note sl = position_slices[OF f11(2) f02(2) f01(2) af'(2) f01(2) fla(2) flo(2),
      where fb = "digit_char time_bit", folded ME_def]
  have z: "hd (py_format 2 1 0) = digit_char 0"
    using bit_field(2)[of 0] by simp
  have b20: "int_at ME 20 = Some 0"
  proof (rule int_at_digit)
    show "(0::int) = 0 \<or> (0::int) = 1" by simp
    show "char_at ME 20 = Some (digit_char 0)" using sl(3) z by simp
  qed
  have b21: "int_at ME 21 = Some time_bit" using tb sl(4) by (rule int_at_digit)
  have "encode_position icao lat lon alt time_bit = Some ?f \<and> length ?f = 28 \<and>
           py_int 16 (slice 8 22 ?f) = Some (digits_value 2 ME) \<and>
           py_format 2 56 (digits_value 2 ME) = ME \<and>
           py_int 2 (slice 0 5 ME) = Some 11 \<and>
           py_int 2 (slice 8 20 ME) = Some ((N div 8) * 16 + (8 + N mod 8)) \<and>
           int_at ME 20 = Some 0 \<and> int_at ME 21 = Some time_bit \<and>
           py_int 2 (slice 22 39 ME) = Some lat_cpr \<and>
           py_int 2 (slice 39 56 ME) = Some lon_cpr"
    unfolding sl(1,2,5,6)
    using enc s fs(1) fs(2,3)[unfolded d32] f11(4) af'(3) b20 b21 fla(4) flo(4)
    by (intro conjI) simp_all
  thus ?thesis by blast
qed

lemma decode_position9_fields:
  assumes "py_int 16 (slice 8 22 f) = Some v" "py_format 2 56 v = me_bin"
    "py_int 2 (slice 8 20 me_bin) = Some alt_int" "int_at me_bin 20 = Some tbit"
    "py_int 2 (slice 22 39 me_bin) = Some lat_cpr" "py_int 2 (slice 39 56 me_bin) = Some lon_cpr"
  shows "fst (decode_position9 f ac) =
           (if tbit = 0 then ac\<lparr>rx9_lat_even_cpr := Some lat_cpr, rx9_lon_even_cpr := Some lon_cpr\<rparr>
            else ac\<lparr>rx9_lat_odd_cpr := Some lat_cpr, rx9_lon_odd_cpr := Some lon_cpr\<rparr>)"
    and "snd (snd (snd (decode_position9 f ac))) =
           (if drop_bit 4 alt_int AND 1 = 1
            then Some ((push_bit 4 (drop_bit 5 alt_int AND 0x7F) OR (alt_int AND 0x0F)) * 25 - 1000)
            else None)"
  unfolding decode_position9_def Let_def assms option.case prod.case
  by (simp_all split: option.splits)

lemma decode_position_fields:
  assumes "py_int 16 (slice 8 22 f) = Some v" "py_format 2 56 v = me_bin"
    "py_int 2 (slice 8 20 me_bin) = Some alt_int" "int_at me_bin 21 = Some tbit"
    "py_int 2 (slice 22 39 me_bin) = Some lat_cpr" "py_int 2 (slice 39 56 me_bin) = Some lon_cpr"
  shows "fst (decode_position f ac t) =
           (if tbit \<noteq> 0 then ac\<lparr>rx_position_odd := Some (lat_cpr, lon_cpr, t)\<rparr>
            else ac\<lparr>rx_position_even := Some (lat_cpr, lon_cpr, t)\<rparr>)"
    and "snd (snd (snd (decode_position f ac t))) =
           (if drop_bit 4 alt_int AND 1 = 1
            then (push_bit 4 (drop_bit 5 alt_int AND 0x7F) OR (alt_int AND 0x0F)) * 25 - 1000
            else 0)"
  unfolding decode_position_def Let_def assms option.case prod.case
  by (simp_all split: option.splits)

lemma grid_code:
  fixes alt :: int
  assumes "- 1000 \<le> alt" "alt \<le> 50175"
  shows "py_trunc (of_int (alt + 1000) / 25) = (alt + 1000) div 25"
    and "0 \<le> (alt + 1000) div 25" and "(alt + 1000) div 25 < 2048"
proof -
  have nn: "0 \<le> alt + 1000" using assms(1) by simp
  hence "(0::real) \<le> of_int (alt + 1000) / 25" by simp
  hence "py_trunc (of_int (alt + 1000) / 25) = \<lfloor>of_int (alt + 1000) / (25::real)\<rfloor>"
    by (simp only: py_trunc_def if_True)
  also have "\<dots> = (alt + 1000) div 25"
    using floor_divide_of_int_eq[of "alt + 1000" 25, where ?'a = real] by simp
  finally show "py_trunc (of_int (alt + 1000) / 25) = (alt + 1000) div 25" .
  show "0 \<le> (alt + 1000) div 25" using nn by simp
  show "(alt + 1000) div 25 < 2048" using assms(2) by simp
qed

lemma bit3: "bit (N::int) 3 \<longleftrightarrow> (N div 8) mod 2 = 1"
  by (simp add: bit_iff_odd odd_iff_mod_2_eq_one)

text \<open>
  Claim C2 (altitude round-trip) does not hold of \<^verbatim>\<open>aircraft_simulator.py\<close>. Its
  \<^verbatim>\<open>encode_position\<close> lays the 12-bit field out as the eight top bits of the code, the Q
  bit and the three bottom bits, so the decoders find bit 3 of the code where they read Q.
  For a valid ICAO address, any position and parity, and an altitude on the 25-ft grid from
  -1000 to 50175 ft, the decoded altitude is the altitude when bit 3 of the code
  \<open>(alt + 1000) div 25\<close> is 1; when it is 0, \<^verbatim>\<open>atc_debian9.py\<close> returns no altitude and
  \<^verbatim>\<open>atc_army_offline.py\<close> returns 0.
\<close>

theorem C2_altitude_q_bit_misplaced:
  fixes lat lon :: real
  assumes "valid_icao icao" and "time_bit = 0 \<or> time_bit = 1"
    and "- 1000 \<le> alt" and "alt \<le> 50175" and "25 dvd alt"
  shows "\<exists>f. encode_position icao lat lon alt time_bit = Some f \<and>
           snd (snd (snd (decode_position9 f acd)))
             = (if bit ((alt + 1000) div 25) 3 then Some alt else None) \<and>
           snd (snd (snd (decode_position f ac t)))
             = (if bit ((alt + 1000) div 25) 3 then alt else 0)"
proof -
  define N where "N = (alt + 1000) div 25"
  note g = grid_code[OF assms(3,4), folded N_def]
  have "25 dvd alt + 1000" using assms(5) by simp
  hence alt: "N * 25 = alt + 1000" unfolding N_def by simp
  from encode_position_payload[OF assms(1,2) g(2,3) g(1), of lat lon]
  obtain f me_bin lat_cpr lon_cpr where
    f: "encode_position icao lat lon alt time_bit = Some f"
    and me: "py_int 16 (slice 8 22 f) = Some (digits_value 2 me_bin)"
      "py_format 2 56 (digits_value 2 me_bin) = me_bin"
    and a: "py_int 2 (slice 8 20 me_bin) = Some ((N div 8) * 16 + (8 + N mod 8))"
    and b: "int_at me_bin 20 = Some 0" "int_at me_bin 21 = Some time_bit"
    and c: "py_int 2 (slice 22 39 me_bin) = Some lat_cpr"
      "py_int 2 (slice 39 56 me_bin) = Some lon_cpr"
    by blast
  note d9 = decode_position9_fields(2)[OF me a b(1) c, of acd]
  note d = decode_position_fields(2)[OF me a b(2) c, of ac t]
  note q = altitude_decode[OF g(2,3)]
  have v: "bit N 3 \<Longrightarrow> ((N div 16) * 16 + (8 + N mod 8)) * 25 - 1000 = alt"
  proof -
    assume "bit N 3"
    hence "(N div 8) mod 2 = 1" by (simp only: bit3)
    hence "(N div 16) * 16 + (8 + N mod 8) = N" by (rule altitude_decode_set)
    thus ?thesis using alt by simp
  qed
  have "snd (snd (snd (decode_position9 f acd))) = (if bit N 3 then Some alt else None)"
    unfolding d9 q bit3[symmetric] using v by simp
  moreover have "snd (snd (snd (decode_position f ac t))) = (if bit N 3 then alt else 0)"
    unfolding d q bit3[symmetric] using v by simp
  ultimately show ?thesis using f unfolding N_def by blast
qed

theorem C2_altitude_q_bit_misplaced_witness:
  "encode_position ''40621D'' 0 0 10200 0 = Some ''8D40621D58388000000000F4C180'' \<and>
   snd (snd (snd (decode_position9 ''8D40621D58388000000000F4C180''
                    (new_aircraft9 ''40621D'' 0)))) = None \<and>
   snd (snd (snd (decode_position ''8D40621D58388000000000F4C180''
                    (new_aircraft ''40621D'' 0) 0))) = 0"
proof -
  have h: "(0::int) = 0 \<or> (0::int) = 1" "- 1000 \<le> (10200::int)" "(10200::int) \<le> 50175"
    "(25::int) dvd 10200" by simp_all
  have b: "\<not> bit ((10200 + 1000) div 25 :: int) 3" by (simp add: bit_iff_odd)
  from C2_altitude_q_bit_misplaced[OF valid_icao_ex h, of 0 0 "new_aircraft9 ''40621D'' 0" "new_aircraft ''40621D'' 0" 0]
  obtain f where f: "encode_position ''40621D'' 0 0 10200 0 = Some f"
    and d: "snd (snd (snd (decode_position9 f (new_aircraft9 ''40621D'' 0)))) = None"
      "snd (snd (snd (decode_position f (new_aircraft ''40621D'' 0) 0))) = 0"
    using b by auto
  have "f = ''8D40621D58388000000000F4C180''" using f position_frame_10200 by simp
  thus ?thesis using f d by simp
qed

text \<open>
  Claim C3 (CPR format bit) does not hold of \<^verbatim>\<open>atc_debian9.py\<close>. The encoder writes the
  Time bit, always 0, at bit 20 of the payload and the format bit at bit 21. The decoder of
  \<^verbatim>\<open>atc_debian9.py\<close> reads the parity from bit 20, so every frame of the encoder, of
  either parity, is stored in the even slots and nothing else of the aircraft changes; the
  decoder of \<^verbatim>\<open>atc_army_offline.py\<close> reads bit 21 and stores the frame under its parity.
\<close>

theorem C3_format_bit_read_at_time_bit:
  fixes lat lon :: real
  assumes "valid_icao icao" and "time_bit = 0 \<or> time_bit = 1"
    and "- 1000 \<le> alt" and "alt \<le> 50175"
  shows "\<exists>f lat_cpr lon_cpr.
           encode_position icao lat lon alt time_bit = Some f \<and>
           fst (decode_position9 f acd)
             = acd\<lparr>rx9_lat_even_cpr := Some lat_cpr, rx9_lon_even_cpr := Some lon_cpr\<rparr> \<and>
           fst (decode_position f ac t)
             = (if time_bit = 1 then ac\<lparr>rx_position_odd := Some (lat_cpr, lon_cpr, t)\<rparr>
                else ac\<lparr>rx_position_even := Some (lat_cpr, lon_cpr, t)\<rparr>)"
proof -
  define N where "N = (alt + 1000) div 25"
  note g = grid_code[OF assms(3,4), folded N_def]
  from encode_position_payload[OF assms(1,2) g(2,3) g(1), of lat lon]
  obtain f me_bin lat_cpr lon_cpr where
    f: "encode_position icao lat lon alt time_bit = Some f"
    and me: "py_int 16 (slice 8 22 f) = Some (digits_value 2 me_bin)"
      "py_format 2 56 (digits_value 2 me_bin) = me_bin"
    and a: "py_int 2 (slice 8 20 me_bin) = Some ((N div 8) * 16 + (8 + N mod 8))"
    and b: "int_at me_bin 20 = Some 0" "int_at me_bin 21 = Some time_bit"
    and c: "py_int 2 (slice 22 39 me_bin) = Some lat_cpr"
      "py_int 2 (slice 39 56 me_bin) = Some lon_cpr"
    by blast
  note d9 = decode_position9_fields(1)[OF me a b(1) c, of acd]
  note d = decode_position_fields(1)[OF me a b(2) c, of ac t]
  have "fst (decode_position9 f acd)
             = acd\<lparr>rx9_lat_even_cpr := Some lat_cpr, rx9_lon_even_cpr := Some lon_cpr\<rparr>"
    unfolding d9 by simp
  moreover have "fst (decode_position f ac t)
             = (if time_bit = 1 then ac\<lparr>rx_position_odd := Some (lat_cpr, lon_cpr, t)\<rparr>
                else ac\<lparr>rx_position_even := Some (lat_cpr, lon_cpr, t)\<rparr>)"
    unfolding d using assms(2) by auto
  ultimately show ?thesis using f by blast
qed

theorem C3_format_bit_read_at_time_bit_witness:
  "encode_position ''40621D'' 3 0 38000 1 = Some ''8D40621D58C385F7760000B9CC80'' \<and>
   rx9_lat_even_cpr (fst (decode_position9 ''8D40621D58C385F7760000B9CC80''
                            (new_aircraft9 ''40621D'' 0))) = Some 64443 \<and>
   rx9_lat_odd_cpr (fst (decode_position9 ''8D40621D58C385F7760000B9CC80''
                           (new_aircraft9 ''40621D'' 0))) = None \<and>
   rx_position_odd (fst (decode_position ''8D40621D58C385F7760000B9CC80''
                           (new_aircraft ''40621D'' 0) 0)) = Some (64443, 0, 0) \<and>
   rx_position_even (fst (decode_position ''8D40621D58C385F7760000B9CC80''
                            (new_aircraft ''40621D'' 0) 0)) = None"
proof -
  have h: "(1::int) = 0 \<or> (1::int) = 1" "- 1000 \<le> (38000::int)" "(38000::int) \<le> 50175"
    by simp_all
  from C3_format_bit_read_at_time_bit[OF valid_icao_ex h, of 3 0 "new_aircraft9 ''40621D'' 0" "new_aircraft ''40621D'' 0" 0]
  obtain f lat_cpr lon_cpr where f: "encode_position ''40621D'' 3 0 38000 1 = Some f"
    and d: "fst (decode_position9 f (new_aircraft9 ''40621D'' 0))
             = (new_aircraft9 ''40621D'' 0)\<lparr>rx9_lat_even_cpr := Some lat_cpr,
                  rx9_lon_even_cpr := Some lon_cpr\<rparr>"
      "fst (decode_position f (new_aircraft ''40621D'' 0) 0)
             = (new_aircraft ''40621D'' 0)\<lparr>rx_position_odd := Some (lat_cpr, lon_cpr, 0)\<rparr>"
    by auto
  have e: "f = ''8D40621D58C385F7760000B9CC80''" using f position_frame_odd by simp
  have o9: "rx9_lat_odd_cpr (fst (decode_position9 ''8D40621D58C385F7760000B9CC80''
                           (new_aircraft9 ''40621D'' 0))) = None"
    using d(1) unfolding e by (simp add: new_aircraft9_def)
  have ev: "rx_position_even (fst (decode_position ''8D40621D58C385F7760000B9CC80''
                            (new_aircraft ''40621D'' 0) 0)) = None"
    using d(2) unfolding e by (simp add: new_aircraft_def)
  have e9: "rx9_lat_even_cpr (fst (decode_position9 ''8D40621D58C385F7760000B9CC80''
                            (new_aircraft9 ''40621D'' 0))) = Some 64443"
    unfolding stored9_odd by simp
  have od: "rx_position_odd (fst (decode_position ''8D40621D58C385F7760000B9CC80''
                           (new_aircraft ''40621D'' 0) 0)) = Some (64443, 0, 0)"
    unfolding stored_odd by simp
  show ?thesis using f[unfolded e] o9 ev e9 od by (intro conjI)
qed

section \<open>The received-aircraft dict stays well formed\<close>

text \<open>
  \<^const>\<open>rx_wf\<close> and \<^const>\<open>rx_wf9\<close> hold of the empty dict at start-up and are kept by
  every processed message, by every turn of the input loop and by every snapshot, so they
  hold of every state the receivers reach.
\<close>

lemma rx_wf_update:
  assumes "rx_wf d" "rx_icao v = k"
  shows "rx_wf (AList.update k v d)"
proof -
  have "list_all (\<lambda>(k, ac). rx_icao ac = k) d \<Longrightarrow> list_all (\<lambda>(k, ac). rx_icao ac = k) (AList.update k v d)"
    using assms(2) by (induction d) auto
  thus ?thesis using assms(1) unfolding rx_wf_def by (simp add: distinct_update)
qed

lemma rx_wf9_update:
  assumes "rx_wf9 d" "rx9_icao v = k"
  shows "rx_wf9 (AList.update k v d)"
proof -
  have "list_all (\<lambda>(k, ac). rx9_icao ac = k) d \<Longrightarrow> list_all (\<lambda>(k, ac). rx9_icao ac = k) (AList.update k v d)"
    using assms(2) by (induction d) auto
  thus ?thesis using assms(1) unfolding rx_wf9_def by (simp add: distinct_update)
qed

lemma rx_wf_map_of:
  assumes "rx_wf d" "map_of d k = Some a"
  shows "rx_icao a = k"
  using assms unfolding rx_wf_def list_all_iff by (auto dest: map_of_SomeD)

lemma rx_wf9_map_of:
  assumes "rx_wf9 d" "map_of d k = Some a"
  shows "rx9_icao a = k"
  using assms unfolding rx_wf9_def list_all_iff by (auto dest: map_of_SomeD)

lemma decode_position_icao: "rx_icao (fst (decode_position msg_hex ac t)) = rx_icao ac"
  unfolding decode_position_def Let_def
  by (auto split: option.splits prod.splits if_splits)

lemma decode_position9_icao: "rx9_icao (fst (decode_position9 msg_hex ac)) = rx9_icao ac"
  unfolding decode_position9_def Let_def
  by (auto split: option.splits prod.splits if_splits)

lemma rx_wf_process_message:
  assumes "rx_wf (received_aircraft st)"
  shows "rx_wf (received_aircraft (process_message st msg_hex current_time t))"
proof -
  define icao where "icao = slice 2 8 msg_hex"
  define ac0 where "ac0 = (case map_of (received_aircraft st) icao of
                             None \<Rightarrow> new_aircraft icao current_time | Some a \<Rightarrow> a)"
  have i0: "rx_icao ac0 = icao"
    unfolding ac0_def using rx_wf_map_of[OF assms, of icao]
    by (auto simp: new_aircraft_def split: option.splits)
  have d: "rx_icao (fst (decode_position msg_hex (ac0\<lparr>rx_last_seen := current_time\<rparr>) t)) = icao"
    unfolding decode_position_icao using i0 by simp
  show ?thesis
    unfolding process_message_def Let_def icao_def[symmetric] ac0_def[symmetric]
    using assms i0 d
    by (auto intro!: rx_wf_update split: option.splits prod.splits if_splits)
qed

lemma rx_wf9_process_message:
  assumes "rx_wf9 (received_aircraft9 st)"
  shows "rx_wf9 (received_aircraft9 (process_message9 st msg_hex now))"
proof -
  define icao where "icao = slice 2 8 msg_hex"
  define ac0 where "ac0 = (case map_of (received_aircraft9 st) icao of
                             None \<Rightarrow> new_aircraft9 icao now | Some a \<Rightarrow> a)"
  have i0: "rx9_icao ac0 = icao"
    unfolding ac0_def using rx_wf9_map_of[OF assms, of icao]
    by (auto simp: new_aircraft9_def split: option.splits)
  have d: "rx9_icao (fst (decode_position9 msg_hex (ac0\<lparr>rx9_last_seen := now\<rparr>))) = icao"
    unfolding decode_position9_icao using i0 by simp
  show ?thesis
    unfolding process_message9_def Let_def icao_def[symmetric] ac0_def[symmetric]
    using assms i0 d
    by (auto intro!: rx_wf9_update split: option.splits prod.splits if_splits)
qed

lemma rx_wf_no_traffic: "rx_wf (received_aircraft no_traffic)" "rx_wf9 (received_aircraft9 no_traffic9)"
  by (simp_all add: rx_wf_def rx_wf9_def no_traffic_def no_traffic9_def)


lemma rx_wf_filter: "rx_wf d \<Longrightarrow> rx_wf (filter P d)"
  unfolding rx_wf_def list_all_iff by (auto simp: distinct_map_filter)

lemma rx_wf9_filter: "rx_wf9 d \<Longrightarrow> rx_wf9 (filter P d)"
  unfolding rx_wf9_def list_all_iff by (auto simp: distinct_map_filter)

lemma rx_wf_serve_aircraft_json:
  "rx_wf (received_aircraft st) \<Longrightarrow>
   rx_wf (received_aircraft (fst (serve_aircraft_json st current_time now)))"
  unfolding received_serve by (rule rx_wf_filter)

lemma rx_wf9_serve_aircraft_json:
  "rx_wf9 (received_aircraft9 st) \<Longrightarrow>
   rx_wf9 (received_aircraft9 (fst (serve_aircraft_json9 st current_time now)))"
  unfolding received_serve9 by (rule rx_wf9_filter)

lemma rx_wf_handle_data:
  assumes "rx_wf (received_aircraft st)"
  shows "rx_wf (received_aircraft (fst (handle_data st buffer data now)))"
proof -
  have "rx_wf (received_aircraft (fold (\<lambda>msg s. process_message s msg now now) msgs st))" for msgs
    using assms by (induction msgs arbitrary: st) (simp_all add: rx_wf_process_message)
  thus ?thesis unfolding handle_data_def by (simp split: prod.splits)
qed

lemma rx_wf9_handle_line:
  assumes "rx_wf9 (received_aircraft9 st)"
  shows "rx_wf9 (received_aircraft9 (handle_line9 st line now))"
  using assms rx_wf9_process_message[of "st\<lparr>message_count9 := message_count9 st + 1\<rparr>"]
  by (simp add: handle_line9_def Let_def)

section \<open>Beast frames and the text loop\<close>

text \<open>
  The loop for the text format runs first, on the same buffer. A Beast frame that holds
  the bytes \<^verbatim>\<open>*\<close> and, later, \<^verbatim>\<open>;\<close> loses everything up to the \<^verbatim>\<open>;\<close> to it: for
  the aircraft \<^verbatim>\<open>2A2B3B\<close> the string \<^verbatim>\<open>+\<close> is processed and no frame is found.
\<close>

lemma icao_int_avr: "py_int 16 ''2A2B3B'' = Some 2763579" by code_simp

lemma position_frame_avr:
  "encode_position ''2A2B3B'' 0 0 38000 0 = Some ''8D2A2B3B58C38000000000EF6E00''"
  unfolding encode_position_def Let_def alt_code_38000
  by (simp add: icao_int_avr nl_equator py_trunc_zero, code_simp)

lemma beast_frame_taken_for_text:
  "encode_message ''8D2A2B3B58C38000000000EF6E00'' 0 200
     = Some [0x1A, 0x33, 0, 0, 0, 0, 0, 0, 200,
             0x8D, 0x2A, 0x2B, 0x3B, 0x58, 0xC3, 0x80, 0, 0, 0, 0, 0xEF, 0x6E, 0]"
  "extract_messages [] [0x1A, 0x33, 0, 0, 0, 0, 0, 0, 200,
             0x8D, 0x2A, 0x2B, 0x3B, 0x58, 0xC3, 0x80, 0, 0, 0, 0, 0xEF, 0x6E, 0]
     = ([''+''], [0x58, 0xC3, 0x80, 0, 0, 0, 0, 0xEF, 0x6E, 0])"
  by code_simp+

end
